theory Spec2Isabelle
  imports Complex_Main
begin

section \<open>Receipt ingestion pipeline (main.go, gemini.go)\<close>

text \<open>
  A shallow embedding of the handler of \<^verbatim>\<open>POST /receipts/ingest\<close> and of the Gemini client
  it calls. The handler is one sequential closure; everything it obtains from outside
  (the multipart form, the file system, the MySQL store, the Tesseract engine, the Gemini
  API, the clock, the JSON decoder) is an outcome read from an environment record, so that
  every early return of the source is a branch of the model, and so is the panic of the
  Gemini client on a nil pointer. The file system and the two tables are an explicit store
  that the handler passes along and returns.
\<close>

subsection \<open>Go strings and the \<^verbatim>\<open>strings\<close> functions used by the handler\<close>

text \<open>
  Names, content types, statuses and error messages are only compared and concatenated: they
  are \<^typ>\<open>string\<close>. The text answered by Gemini is trimmed of Unicode white space, so it is
  modelled as the sequence of its Unicode code points; \<open>runes\<close> reads an ASCII literal as such
  a sequence.
\<close>

type_synonym rune = nat
type_synonym rstring = "rune list"
type_synonym bytes = "nat list"
type_synonym time = int

definition runes :: "string \<Rightarrow> rstring" where
  "runes cs = map of_char cs"

text \<open>\<^verbatim>\<open>unicode.IsSpace\<close>: the code points with the Unicode property White\_Space.\<close>

definition isSpace :: "rune \<Rightarrow> bool" where
  "isSpace r \<longleftrightarrow>
     (9 \<le> r \<and> r \<le> 13) \<or> r = 32 \<or> r = 133 \<or> r = 160 \<or> r = 5760 \<or>
     (8192 \<le> r \<and> r \<le> 8202) \<or> r = 8232 \<or> r = 8233 \<or> r = 8239 \<or> r = 8287 \<or>
     r = 12288"

text \<open>\<^verbatim>\<open>strings.TrimSpace\<close>: all leading and trailing white space removed.\<close>

definition TrimSpace :: "rstring \<Rightarrow> rstring" where
  "TrimSpace s = rev (dropWhile isSpace (rev (dropWhile isSpace s)))"

definition HasPrefix :: "'a list \<Rightarrow> 'a list \<Rightarrow> bool" where
  "HasPrefix s p \<longleftrightarrow> length p \<le> length s \<and> take (length p) s = p"

definition HasSuffix :: "'a list \<Rightarrow> 'a list \<Rightarrow> bool" where
  "HasSuffix s p \<longleftrightarrow> length p \<le> length s \<and> drop (length s - length p) s = p"

definition TrimPrefix :: "'a list \<Rightarrow> 'a list \<Rightarrow> 'a list" where
  "TrimPrefix s p = (if HasPrefix s p then drop (length p) s else s)"

definition TrimSuffix :: "'a list \<Rightarrow> 'a list \<Rightarrow> 'a list" where
  "TrimSuffix s p = (if HasSuffix s p then take (length s - length p) s else s)"

text \<open>
  \<^verbatim>\<open>filepath.Ext\<close>: the suffix beginning at the final dot in the final element of the path,
  empty if there is no dot. The loop walks from the end of the path towards its start.
\<close>

fun Ext_from_end :: "string \<Rightarrow> string \<Rightarrow> string" where
  "Ext_from_end [] seen = ''''"
| "Ext_from_end (c # front) seen =
     (if c = CHR ''/'' then ''''
      else if c = CHR ''.'' then c # seen
      else Ext_from_end front (c # seen))"

definition Ext :: "string \<Rightarrow> string" where
  "Ext path = Ext_from_end (rev path) []"

text \<open>
  The cleaning of the Gemini answer before it is decoded (main.go, the five statements
  after \<^verbatim>\<open>// Clean the response\<close>).
\<close>

definition cleanResponse :: "rstring \<Rightarrow> rstring" where
  "cleanResponse responseText =
     (let cleanedText = TrimSpace responseText;
          cleanedText = TrimPrefix cleanedText (runes ''```json'');
          cleanedText = TrimPrefix cleanedText (runes ''```'');
          cleanedText = TrimSuffix cleanedText (runes ''```'');
          cleanedText = TrimSpace cleanedText
      in cleanedText)"

subsection \<open>Data model\<close>

record Receipt =
  ID :: int
  FileName :: string
  DriveFileID :: "string option"
  Status :: string
  UploadedAt :: time

record Transaction =
  tx_ID :: int
  tx_ReceiptID :: int
  tx_Date :: "time option"
  tx_MerchantRaw :: "string option"
  tx_MerchantClean :: "string option"
  tx_Category :: "string option"
  tx_Amount :: "real option"
  tx_Currency :: "string option"
  tx_Confidence :: "real option"
  tx_CreatedAt :: time

text \<open>
  The two \<^verbatim>\<open>float64\<close> fields are decoded from JSON numbers, so they are finite and never NaN;
  the handler only compares them with zero, which is exact, and they are modelled as reals.
\<close>

record GeminiParsedData =
  Date :: string
  MerchantRaw :: string
  MerchantClean :: string
  Category :: string
  Amount :: real
  Currency :: string
  Confidence :: real

record GeminiResponse =
  Text :: rstring
  Success :: bool
  Error :: string
  TokenCount :: int

text \<open>
  \<^verbatim>\<open>sql.NullString{String: s, Valid: v}\<close> and its siblings, as the driver stores them: the
  value when \<open>Valid\<close>, NULL otherwise.
\<close>

definition NullString :: "string \<Rightarrow> bool \<Rightarrow> string option" where
  "NullString s valid = (if valid then Some s else None)"

definition NullFloat64 :: "real \<Rightarrow> bool \<Rightarrow> real option" where
  "NullFloat64 x valid = (if valid then Some x else None)"

subsection \<open>The environment and the store\<close>

record upload =
  Filename :: string
  ContentType :: string
  Content :: bytes

text \<open>
  What \<^verbatim>\<open>model.GenerateContent\<close> answers. The type \<^verbatim>\<open>genai.GenerateContentResponse\<close> is
  declared in the Gemini library, which is not among the sources; the model keeps what
  \<^verbatim>\<open>GenerateText\<close> reads of it. \<^verbatim>\<open>Candidates\<close> is a slice of candidates, and the
  \<^verbatim>\<open>Content\<close> of a candidate is a pointer: \<open>None\<close> is the nil pointer of a candidate that
  carries no content (a blocked answer), \<open>Some parts\<close> gives the rendering (\<^verbatim>\<open>%v\<close>) of
  the parts. \<^verbatim>\<open>UsageMetadata\<close> is a pointer too: \<open>None\<close> is nil, \<open>Some n\<close> gives the total
  token count.
\<close>

record genai_response =
  Candidates :: "rstring list option list"
  UsageMetadata :: "int option"

text \<open>
  A call either returns or panics. A panic in the handler is not recovered: no response is
  sent and the process ends; what was written to the file system and to the tables stays.
\<close>

datatype 'a outcome = Returns 'a | Panics

record env =
  FormFile :: "upload option"
  uuid_New :: string
  now_filename :: string
  SaveFile_err :: "string option"
  Stat_err :: "string option"
  now_uploaded :: time
  InsertReceipt_err :: "string option"
  LastInsertId_err :: "string option"
  ReadFile_err :: "string option"
  SetImageFromBytes :: "bytes \<Rightarrow> string option"
  OcrText :: "bytes \<Rightarrow> string + string"
  Getenv :: "string \<Rightarrow> string"
  genai_NewClient_err :: "string option"
  GenerateContent :: "string \<Rightarrow> string \<Rightarrow> string + genai_response"
  json_Unmarshal :: "rstring \<Rightarrow> string + GeminiParsedData"
  time_Parse :: "string \<Rightarrow> time option"
  InsertTransaction_err :: "string option"
  now_created :: time
  UpdateReceipt_err :: "string option"
  now_response :: string

text \<open>
  The calls that leave the process, in the order the handler makes them. An insert carries
  the values that matter to the pipeline.
\<close>

datatype event =
    EvSaveFile string
  | EvStat string
  | EvInsertReceipt string string
  | EvLastInsertId
  | EvReadFile string
  | EvSetImageFromBytes
  | EvOcrText
  | EvNewGeminiClient
  | EvGenerateContent
  | EvUnmarshal
  | EvInsertTransaction int
  | EvUpdateReceipt int string

record store =
  uploads :: "(string \<times> bytes) list"
  receipts :: "Receipt list"
  transactions :: "Transaction list"
  trace :: "event list"

definition log_event :: "event \<Rightarrow> store \<Rightarrow> store" where
  "log_event ev s = s\<lparr>trace := trace s @ [ev]\<rparr>"

text \<open>\<^verbatim>\<open>AUTO_INCREMENT\<close>: a new row gets an id above every id of the table.\<close>

definition next_id :: "int list \<Rightarrow> int" where
  "next_id ids = fold max ids 0 + 1"

subsection \<open>The Gemini client (gemini.go)\<close>

text \<open>
  \<^verbatim>\<open>NewGeminiClient\<close> returns the client or an error; of the client only the model name is
  used later.
\<close>

definition NewGeminiClient :: "env \<Rightarrow> string + string" where
  "NewGeminiClient e =
     (let apiKey = Getenv e ''GEMINI_API_KEY'' in
      if apiKey = '''' then Inl ''GEMINI_API_KEY environment variable not set''
      else
        (case genai_NewClient_err e of
           Some err \<Rightarrow> Inl (''failed to create Gemini client: '' @ err)
         | None \<Rightarrow>
             (let modelName = Getenv e ''GEMINI_MODEL'';
                  modelName = (if modelName = '''' then ''gemini-1.5-flash'' else modelName)
              in Inr modelName)))"

text \<open>
  \<^verbatim>\<open>GenerateText\<close> returns a response together with an error; the error is \<open>None\<close> exactly
  when a first candidate exists, whose parts are concatenated. It reads the parts through
  the content of the first candidate and the token count through the usage metadata, and
  checks neither pointer: on a nil pointer it panics.
\<close>

definition GenerateText ::
  "env \<Rightarrow> string \<Rightarrow> string \<Rightarrow> (GeminiResponse \<times> string option) outcome" where
  "GenerateText e model prompt =
     (case GenerateContent e model prompt of
        Inl err \<Rightarrow>
          Returns
            (\<lparr>Text = [], Success = False, Error = ''Failed to generate content: '' @ err,
              TokenCount = 0\<rparr>, Some err)
      | Inr resp \<Rightarrow>
          (case Candidates resp of
             [] \<Rightarrow>
               Returns
                 (\<lparr>Text = [], Success = False, Error = ''No response candidates returned'',
                   TokenCount = 0\<rparr>, Some ''no response candidates'')
           | content # _ \<Rightarrow>
               (case content of
                  None \<Rightarrow> Panics
                | Some parts \<Rightarrow>
                    (case UsageMetadata resp of
                       None \<Rightarrow> Panics
                     | Some totalTokenCount \<Rightarrow>
                         Returns
                           (\<lparr>Text = concat parts, Success = True, Error = '''',
                             TokenCount = totalTokenCount\<rparr>, None)))))"

definition default_prompt :: string where
  \<open>default_prompt =
     ''Analyze the following receipt text and extract structured information in JSON format.'' @
     [CHR 10, CHR 10] @
     ''Extract the following information:'' @ [CHR 10] @
     ''- date: transaction date (YYYY-MM-DD format)'' @ [CHR 10] @
     ''- merchant_raw: merchant name as it appears'' @ [CHR 10] @
     ''- merchant_clean: cleaned/normalized merchant name'' @ [CHR 10] @
     ''- category: spending category (e.g., groceries, restaurant, gas, shopping, entertainment, etc.)'' @
     [CHR 10] @
     ''- amount: total amount'' @ [CHR 10] @
     ''- currency: currency code (e.g., USD, EUR, IDR)'' @ [CHR 10] @
     ''- confidence: your confidence level (0.0 to 1.0)'' @ [CHR 10, CHR 10] @
     ''Return ONLY a valid JSON object with these fields. If you cannot extract a field, use null.'' @
     [CHR 10] @
     ''Example: {"date":"2024-01-15","merchant_raw":"WALMART #1234","merchant_clean":"Walmart","category":"groceries","amount":45.67,"currency":"USD","confidence":0.95}''\<close>

definition AnalyzeReceiptTextWithPrompt ::
  "env \<Rightarrow> string \<Rightarrow> string \<Rightarrow> (GeminiResponse \<times> string option) outcome" where
  "AnalyzeReceiptTextWithPrompt e model ocrText =
     (let promptTemplate = Getenv e ''GEMINI_PROMPT'';
          promptTemplate = (if promptTemplate = '''' then default_prompt else promptTemplate);
          prompt = promptTemplate @ [CHR 10, CHR 10] @ ''Receipt Text:'' @ [CHR 10] @ ocrText
      in GenerateText e model prompt)"

subsection \<open>The ingest handler (main.go)\<close>

record ocr_report =
  ocr_status :: string
  ocr_text :: string
  ocr_error :: string

record gemini_report =
  gemini_status :: string
  gemini_analysis :: rstring
  gemini_error :: string
  gemini_parsed :: "GeminiParsedData option"

record ingest_json =
  success :: bool
  receipt_id :: int
  uuid :: string
  original_name :: string
  stored_name :: string
  file_size :: int
  content_type :: string
  upload_time :: string
  file_path :: string
  status :: string
  ocr :: ocr_report
  gemini :: gemini_report

datatype json_body = ErrorJSON string | IngestJSON ingest_json

record response =
  code :: nat
  body :: json_body

definition allowedTypes :: "string \<Rightarrow> bool" where
  "allowedTypes contentType \<longleftrightarrow>
     contentType \<in> set [''image/jpeg'', ''image/jpg'', ''image/png'', ''image/gif'',
                        ''image/webp'', ''application/pdf'']"

text \<open>The file system calls: the environment decides whether they fail.\<close>

definition Stat :: "env \<Rightarrow> store \<Rightarrow> string \<Rightarrow> string + int" where
  "Stat e s path =
     (case Stat_err e of
        Some err \<Rightarrow> Inl err
      | None \<Rightarrow>
          (case map_of (uploads s) path of
             None \<Rightarrow> Inl ''no such file or directory''
           | Some fileBytes \<Rightarrow> Inr (int (length fileBytes))))"

definition ReadFile :: "env \<Rightarrow> store \<Rightarrow> string \<Rightarrow> string + bytes" where
  "ReadFile e s path =
     (case ReadFile_err e of
        Some err \<Rightarrow> Inl err
      | None \<Rightarrow>
          (case map_of (uploads s) path of
             None \<Rightarrow> Inl ''no such file or directory''
           | Some fileBytes \<Rightarrow> Inr fileBytes))"

text \<open>
  The block \<^verbatim>\<open>// Perform OCR on the uploaded file (only for images, not PDFs)\<close>: it sets
  \<open>ocrStatus\<close>, \<open>ocrText\<close> and \<open>ocrError\<close>.
\<close>

definition perform_ocr :: "env \<Rightarrow> string \<Rightarrow> string \<Rightarrow> store \<Rightarrow> ocr_report \<times> store" where
  "perform_ocr e contentType savePath s =
     (let isImage = (contentType \<noteq> ''application/pdf'' \<and> contentType \<noteq> '''') in
      if \<not> isImage then
        (\<lparr>ocr_status = ''skipped'', ocr_text = '''',
          ocr_error = ''PDF files require separate processing''\<rparr>, s)
      else
        (let s = log_event (EvReadFile savePath) s in
         case ReadFile e s savePath of
           Inl err \<Rightarrow>
             (\<lparr>ocr_status = ''failed'', ocr_text = '''',
               ocr_error = ''Failed to read file: '' @ err\<rparr>, s)
         | Inr fileBytes \<Rightarrow>
             (let s = log_event EvSetImageFromBytes s in
              case SetImageFromBytes e fileBytes of
                Some err \<Rightarrow>
                  (\<lparr>ocr_status = ''failed'', ocr_text = '''',
                    ocr_error = ''Failed to set image: '' @ err\<rparr>, s)
              | None \<Rightarrow>
                  (let s = log_event EvOcrText s in
                   case OcrText e fileBytes of
                     Inl err \<Rightarrow>
                       (\<lparr>ocr_status = ''failed'', ocr_text = '''',
                         ocr_error = ''Failed to extract text: '' @ err\<rparr>, s)
                   | Inr txt \<Rightarrow>
                       (\<lparr>ocr_status = ''success'', ocr_text = txt, ocr_error = ''''\<rparr>, s)))))"

text \<open>
  The row handed to \<^verbatim>\<open>INSERT INTO transactions\<close> for decoded data, and the statement
  \<^verbatim>\<open>UPDATE receipts SET status = ? WHERE id = ?\<close>.
\<close>

definition transaction_row :: "env \<Rightarrow> store \<Rightarrow> int \<Rightarrow> GeminiParsedData \<Rightarrow> Transaction" where
  "transaction_row e s receiptDBID data =
     (let transactionDate = (if Date data \<noteq> '''' then time_Parse e (Date data) else None) in
      \<lparr>tx_ID = next_id (map tx_ID (transactions s)),
       tx_ReceiptID = receiptDBID,
       tx_Date = transactionDate,
       tx_MerchantRaw = NullString (MerchantRaw data) (MerchantRaw data \<noteq> ''''),
       tx_MerchantClean = NullString (MerchantClean data) (MerchantClean data \<noteq> ''''),
       tx_Category = NullString (Category data) (Category data \<noteq> ''''),
       tx_Amount = NullFloat64 (Amount data) (Amount data > 0),
       tx_Currency = NullString (Currency data) (Currency data \<noteq> ''''),
       tx_Confidence = NullFloat64 (Confidence data) (Confidence data > 0),
       tx_CreatedAt = now_created e\<rparr>)"

definition update_status :: "int \<Rightarrow> string \<Rightarrow> Receipt list \<Rightarrow> Receipt list" where
  "update_status rid st rows = map (\<lambda>r. if ID r = rid then r\<lparr>Status := st\<rparr> else r) rows"

text \<open>
  The block \<^verbatim>\<open>// Parse OCR text with Gemini if OCR was successful\<close>: it sets
  \<open>geminiAnalysis\<close>, \<open>geminiStatus\<close>, \<open>geminiError\<close> and \<open>parsedData\<close>, inserts the
  transaction and updates the receipt. The result of the \<^verbatim>\<open>UPDATE\<close> is not looked at. A
  panic of the Gemini client is passed on.
\<close>

definition parse_with_gemini ::
  "env \<Rightarrow> int \<Rightarrow> ocr_report \<Rightarrow> store \<Rightarrow> gemini_report outcome \<times> store" where
  "parse_with_gemini e receiptDBID ocrRep s =
     (if ocr_status ocrRep = ''success'' \<and> ocr_text ocrRep \<noteq> '''' then
        (let s = log_event EvNewGeminiClient s in
         case NewGeminiClient e of
           Inl err \<Rightarrow>
             (Returns
                \<lparr>gemini_status = ''failed'', gemini_analysis = [],
                 gemini_error = ''Failed to create client: '' @ err, gemini_parsed = None\<rparr>, s)
         | Inr model \<Rightarrow>
             (let s = log_event EvGenerateContent s in
              case AnalyzeReceiptTextWithPrompt e model (ocr_text ocrRep) of
                Panics \<Rightarrow> (Panics, s)
              | Returns (resp, Some err) \<Rightarrow>
                  (Returns
                     \<lparr>gemini_status = ''failed'', gemini_analysis = [],
                      gemini_error = ''Failed to analyze: '' @ err, gemini_parsed = None\<rparr>, s)
              | Returns (resp, None) \<Rightarrow>
                  if \<not> Success resp then
                    (Returns
                       \<lparr>gemini_status = ''failed'', gemini_analysis = [],
                        gemini_error = Error resp, gemini_parsed = None\<rparr>, s)
                  else
                    (let cleanedText = cleanResponse (Text resp);
                         s = log_event EvUnmarshal s in
                     case json_Unmarshal e cleanedText of
                       Inl err \<Rightarrow>
                         (Returns
                            \<lparr>gemini_status = ''success'', gemini_analysis = Text resp,
                             gemini_error = ''Failed to parse JSON: '' @ err,
                             gemini_parsed = None\<rparr>, s)
                     | Inr data \<Rightarrow>
                         (let rep = \<lparr>gemini_status = ''success'', gemini_analysis = Text resp,
                                     gemini_error = '''', gemini_parsed = Some data\<rparr>;
                              s = log_event (EvInsertTransaction receiptDBID) s in
                          case InsertTransaction_err e of
                            Some err \<Rightarrow> (Returns rep, s)
                          | None \<Rightarrow>
                              (let s = s\<lparr>transactions :=
                                          transactions s @ [transaction_row e s receiptDBID data]\<rparr>;
                                   s = log_event (EvUpdateReceipt receiptDBID ''processed'') s;
                                   s = (case UpdateReceipt_err e of
                                          Some err \<Rightarrow> s
                                        | None \<Rightarrow>
                                            s\<lparr>receipts :=
                                              update_status receiptDBID ''processed'' (receipts s)\<rparr>)
                               in (Returns rep, s))))))
      else
        (Returns
           \<lparr>gemini_status = ''skipped'', gemini_analysis = [],
            gemini_error = ''No OCR text available'', gemini_parsed = None\<rparr>, s))"

definition error_response :: "nat \<Rightarrow> string \<Rightarrow> response outcome" where
  "error_response c msg = Returns \<lparr>code = c, body = ErrorJSON msg\<rparr>"

text \<open>
  The handler of \<^verbatim>\<open>POST /receipts/ingest\<close>: the response it sends, or the panic that
  ends it, and the store it leaves.
\<close>

definition ingest :: "env \<Rightarrow> store \<Rightarrow> response outcome \<times> store" where
  "ingest e s =
     (case FormFile e of
        None \<Rightarrow> (error_response 400 ''No file provided'', s)
      | Some file \<Rightarrow>
          (let contentType = ContentType file in
           if contentType \<noteq> '''' \<and> \<not> allowedTypes contentType then
             (error_response 400
                ''Invalid file type. Allowed: images (jpg, png, gif, webp) and PDF'', s)
           else
             (let receiptID = uuid_New e;
                  ext = Ext (Filename file);
                  uniqueFilename = receiptID @ ''_'' @ now_filename e @ ext;
                  savePath = ''uploads/'' @ uniqueFilename;
                  s = log_event (EvSaveFile savePath) s in
              case SaveFile_err e of
                Some err \<Rightarrow> (error_response 500 ''Failed to save file'', s)
              | None \<Rightarrow>
                  (let s = s\<lparr>uploads := (savePath, Content file) # uploads s\<rparr>;
                       s = log_event (EvStat savePath) s in
                   case Stat e s savePath of
                     Inl err \<Rightarrow> (error_response 500 ''Failed to get file info'', s)
                   | Inr fileSize \<Rightarrow>
                       (let s = log_event (EvInsertReceipt uniqueFilename ''needs_review'') s in
                        case InsertReceipt_err e of
                          Some err \<Rightarrow>
                            (error_response 500 ''Failed to save receipt to database'', s)
                        | None \<Rightarrow>
                            (let newID = next_id (map ID (receipts s));
                                 s = s\<lparr>receipts := receipts s @
                                        [\<lparr>ID = newID, FileName = uniqueFilename,
                                          DriveFileID = None, Status = ''needs_review'',
                                          UploadedAt = now_uploaded e\<rparr>]\<rparr>;
                                 s = log_event EvLastInsertId s in
                             case LastInsertId_err e of
                               Some err \<Rightarrow> (error_response 500 ''Failed to get receipt ID'', s)
                             | None \<Rightarrow>
                                 (let receiptDBID = newID;
                                      (ocrRep, s) = perform_ocr e contentType savePath s;
                                      (geminiOut, s) = parse_with_gemini e receiptDBID ocrRep s
                                  in case geminiOut of
                                       Panics \<Rightarrow> (Panics, s)
                                     | Returns geminiRep \<Rightarrow>
                                         (Returns
                                            \<lparr>code = 201,
                                             body = IngestJSON
                                               \<lparr>success = True,
                                                receipt_id = receiptDBID,
                                                uuid = receiptID,
                                                original_name = Filename file,
                                                stored_name = uniqueFilename,
                                                file_size = fileSize,
                                                content_type = contentType,
                                                upload_time = now_response e,
                                                file_path = savePath,
                                                status = ''needs_review'',
                                                ocr = ocrRep,
                                                gemini = geminiRep\<rparr>\<rparr>, s))))))))"

subsection \<open>Notions used in the statements\<close>

text \<open>The Markdown fences that the handler strips.\<close>

definition fence :: rstring where
  "fence = runes ''```''"

definition fence_json :: rstring where
  "fence_json = runes ''```json''"

text \<open>The calls made by one request: what it appended to the trace.\<close>

definition new_events :: "store \<Rightarrow> store \<Rightarrow> event list" where
  "new_events s s' = drop (length (trace s)) (trace s')"

definition is_ocr_event :: "event \<Rightarrow> bool" where
  "is_ocr_event ev =
     (case ev of EvReadFile p \<Rightarrow> True | EvSetImageFromBytes \<Rightarrow> True | EvOcrText \<Rightarrow> True
      | _ \<Rightarrow> False)"

definition is_extraction_event :: "event \<Rightarrow> bool" where
  "is_extraction_event ev =
     (case ev of EvNewGeminiClient \<Rightarrow> True | EvGenerateContent \<Rightarrow> True | EvUnmarshal \<Rightarrow> True
      | EvInsertTransaction rid \<Rightarrow> True | EvUpdateReceipt rid st \<Rightarrow> True | _ \<Rightarrow> False)"

text \<open>
  The calls of the OCR stage for an upload: none for a PDF or an undeclared content type;
  otherwise the file is read once, then the image is set once, then the text is extracted
  once, and the stage stops at the first call that fails.
\<close>

definition ocr_calls :: "env \<Rightarrow> string \<Rightarrow> string \<Rightarrow> bytes \<Rightarrow> event list" where
  "ocr_calls e contentType savePath fileBytes =
     (if contentType = ''application/pdf'' \<or> contentType = '''' then []
      else EvReadFile savePath #
        (if ReadFile_err e \<noteq> None then []
         else EvSetImageFromBytes #
           (if SetImageFromBytes e fileBytes \<noteq> None then [] else [EvOcrText])))"

text \<open>The names the handler computes for an upload, and the row it registers.\<close>

definition stored_name_of :: "env \<Rightarrow> upload \<Rightarrow> string" where
  "stored_name_of e file = uuid_New e @ ''_'' @ now_filename e @ Ext (Filename file)"

definition save_path_of :: "env \<Rightarrow> upload \<Rightarrow> string" where
  "save_path_of e file = ''uploads/'' @ stored_name_of e file"

definition new_receipt :: "env \<Rightarrow> upload \<Rightarrow> store \<Rightarrow> Receipt" where
  "new_receipt e file s =
     \<lparr>ID = next_id (map ID (receipts s)), FileName = stored_name_of e file,
      DriveFileID = None, Status = ''needs_review'', UploadedAt = now_uploaded e\<rparr>"

text \<open>The store once the file is saved and the receipt registered.\<close>

definition registered_store :: "env \<Rightarrow> upload \<Rightarrow> store \<Rightarrow> store" where
  "registered_store e file s =
     s\<lparr>uploads := (save_path_of e file, Content file) # uploads s,
       receipts := receipts s @ [new_receipt e file s],
       trace := trace s @ [EvSaveFile (save_path_of e file), EvStat (save_path_of e file),
                           EvInsertReceipt (stored_name_of e file) ''needs_review'',
                           EvLastInsertId]\<rparr>"

text \<open>The validation of the declared content type lets a request through.\<close>

definition type_accepted :: "string \<Rightarrow> bool" where
  "type_accepted contentType \<longleftrightarrow> contentType = '''' \<or> allowedTypes contentType"

text \<open>The lifecycle state of the receipt with a given row id, as the table has it.\<close>

definition receipt_state :: "store \<Rightarrow> int \<Rightarrow> string option" where
  "receipt_state s rid = map_option Status (find (\<lambda>r. ID r = rid) (receipts s))"

text \<open>
  The invariant of the two tables: a receipt has a transaction exactly when it is
  \<open>processed\<close>; and the foreign key of the transactions.
\<close>

definition tx_iff_processed :: "store \<Rightarrow> bool" where
  "tx_iff_processed s \<longleftrightarrow>
     (\<forall>r \<in> set (receipts s).
        (ID r \<in> set (map tx_ReceiptID (transactions s))) = (Status r = ''processed''))"

definition tx_owned :: "store \<Rightarrow> bool" where
  "tx_owned s \<longleftrightarrow>
     (\<forall>t \<in> set (transactions s). tx_ReceiptID t \<in> set (map ID (receipts s)))"

subsection \<open>Scenarios\<close>

text \<open>
  Scenario A of the specification: a JPEG whose OCR text is that of a Walmart receipt, and
  a Gemini answer that decodes to the seven fields. The decoder of the scenarios is the
  JSON decoder on the few texts it is given in them: the Walmart object, the empty object
  (every field keeps its zero value), and texts that are no JSON value.
\<close>

definition walmart_json :: string where
  \<open>walmart_json = ''{"date":"2024-01-15","merchant_raw":"WALMART","merchant_clean":"Walmart","category":"groceries","amount":45.67,"currency":"USD","confidence":0.9}''\<close>

definition walmart_data :: GeminiParsedData where
  "walmart_data =
     \<lparr>Date = ''2024-01-15'', MerchantRaw = ''WALMART'', MerchantClean = ''Walmart'',
      Category = ''groceries'', Amount = 4567 / 100, Currency = ''USD'', Confidence = 9 / 10\<rparr>"

definition zero_data :: GeminiParsedData where
  "zero_data =
     \<lparr>Date = '''', MerchantRaw = '''', MerchantClean = '''', Category = '''', Amount = 0,
      Currency = '''', Confidence = 0\<rparr>"

definition scenario_decoder :: "rstring \<Rightarrow> string + GeminiParsedData" where
  "scenario_decoder t =
     (if t = runes walmart_json then Inr walmart_data
      else if t = runes ''{}'' then Inr zero_data
      else if t = [] then Inl ''unexpected end of JSON input''
      else Inl ''invalid character'')"

definition jpeg_upload :: upload where
  "jpeg_upload =
     \<lparr>Filename = ''receipt.jpg'', ContentType = ''image/jpeg'', Content = [255, 216, 255, 224]\<rparr>"

definition scenario_A :: env where
  "scenario_A =
     \<lparr>FormFile = Some jpeg_upload,
      uuid_New = ''123e4567-e89b-12d3-a456-426614174000'',
      now_filename = ''20240115_103000'',
      SaveFile_err = None,
      Stat_err = None,
      now_uploaded = 1705314600,
      InsertReceipt_err = None,
      LastInsertId_err = None,
      ReadFile_err = None,
      SetImageFromBytes = (\<lambda>fileBytes. None),
      OcrText = (\<lambda>fileBytes. Inr (''WALMART'' @ [CHR 10] @ ''01/15/2024'' @ [CHR 10] @ ''$45.67'')),
      Getenv = (\<lambda>key. if key = ''GEMINI_API_KEY'' then ''secret'' else ''''),
      genai_NewClient_err = None,
      GenerateContent =
        (\<lambda>model prompt.
           Inr \<lparr>Candidates = [Some [runes walmart_json]], UsageMetadata = Some 150\<rparr>),
      json_Unmarshal = scenario_decoder,
      time_Parse = (\<lambda>d. if d = ''2024-01-15'' then Some 1705276800 else None),
      InsertTransaction_err = None,
      now_created = 1705314601,
      UpdateReceipt_err = None,
      now_response = ''2024-01-15T10:30:01Z''\<rparr>"

definition empty_store :: store where
  "empty_store = \<lparr>uploads = [], receipts = [], transactions = [], trace = []\<rparr>"

text \<open>
  Scenario C of the specification: OCR succeeds and Gemini answers a text that is no JSON
  value.
\<close>

definition apology :: rstring where
  "apology = runes ''Sorry, I cannot read this receipt.''"

definition scenario_C :: env where
  "scenario_C =
     scenario_A\<lparr>GenerateContent :=
        (\<lambda>model prompt. Inr \<lparr>Candidates = [Some [apology]], UsageMetadata = Some 60\<rparr>)\<rparr>"

section \<open>Properties\<close>

subsection \<open>Stripping white space and fences\<close>

lemma fence_eq: "fence = [96, 96, 96]"
  by (simp add: fence_def runes_def)

lemma fence_json_eq: "fence_json = [96, 96, 96, 106, 115, 111, 110]"
  by (simp add: fence_json_def runes_def)

lemma runes_json_eq: "runes ''json'' = [106, 115, 111, 110]"
  by (simp add: runes_def)

lemma TrimSpace_Nil: "TrimSpace [] = []"
  by (simp add: TrimSpace_def)

lemma TrimSpace_noop:
  assumes "s \<noteq> []" "\<not> isSpace (hd s)" "\<not> isSpace (last s)"
  shows "TrimSpace s = s"
proof -
  from assms(1,2) have l: "dropWhile isSpace s = s"
    by (cases s) simp_all
  from assms(1,3) have r: "dropWhile isSpace (rev s) = rev s"
    by (cases "rev s") (simp_all add: last_rev[symmetric] hd_rev)
  show ?thesis by (simp add: TrimSpace_def l r)
qed

lemma TrimSpace_ends:
  assumes "TrimSpace s \<noteq> []"
  shows "\<not> isSpace (hd (TrimSpace s)) \<and> \<not> isSpace (last (TrimSpace s))"
proof -
  define l where "l = dropWhile isSpace s"
  define r where "r = dropWhile isSpace (rev l)"
  have ts: "TrimSpace s = rev r"
    by (simp add: TrimSpace_def l_def r_def)
  from assms have rne: "r \<noteq> []" by (simp add: ts)
  then have h: "\<not> isSpace (hd r)"
    unfolding r_def by (rule hd_dropWhile)
  have lne: "l \<noteq> []"
  proof
    assume "l = []"
    then have "r = []" by (simp add: r_def)
    with rne show False by simp
  qed
  then have hl: "\<not> isSpace (hd l)"
    unfolding l_def by (rule hd_dropWhile)
  have "last (rev r) = hd r" using rne by (simp add: last_rev)
  moreover have "hd (rev r) = hd l"
  proof -
    have "rev l = takeWhile isSpace (rev l) @ r"
      by (simp add: r_def)
    then have "l = rev r @ rev (takeWhile isSpace (rev l))"
      by (metis rev_append rev_rev_ident)
    moreover have "rev r \<noteq> []" using rne by simp
    ultimately show ?thesis by (metis hd_append2)
  qed
  ultimately show ?thesis using h hl by (simp add: ts)
qed

lemma TrimSpace_idem: "TrimSpace (TrimSpace s) = TrimSpace s"
proof (cases "TrimSpace s = []")
  case True
  then show ?thesis by (simp add: TrimSpace_Nil)
next
  case False
  with TrimSpace_ends[OF False] show ?thesis by (intro TrimSpace_noop) simp_all
qed


lemma TrimPrefix_append: "TrimPrefix (p @ s) p = s"
  by (simp add: TrimPrefix_def HasPrefix_def)

lemma TrimSuffix_append: "TrimSuffix (s @ p) p = s"
  by (simp add: TrimSuffix_def HasSuffix_def)

lemma TrimSpace_keeps_prefix:
  assumes "p \<noteq> []" "\<forall>x\<in>set p. \<not> isSpace x"
  shows "\<exists>t'. TrimSpace (p @ t) = p @ t'"
proof -
  from assms have l: "dropWhile isSpace (p @ t) = p @ t"
    by (cases p) simp_all
  have "\<exists>ys. dropWhile isSpace (rev t @ rev p) = ys @ rev p"
  proof (cases "\<forall>x\<in>set (rev t). isSpace x")
    case True
    moreover from assms have "dropWhile isSpace (rev p) = rev p"
      by (cases "rev p") auto
    ultimately show ?thesis by (simp add: dropWhile_append)
  next
    case False
    then have "dropWhile isSpace (rev t @ rev p) = dropWhile isSpace (rev t) @ rev p"
      by (auto simp: dropWhile_append)
    then show ?thesis by blast
  qed
  then obtain ys where "dropWhile isSpace (rev t @ rev p) = ys @ rev p" by blast
  then have "TrimSpace (p @ t) = p @ rev ys"
    by (simp add: TrimSpace_def l)
  then show ?thesis by blast
qed

lemma fenced_prefix_survives:
  assumes "HasPrefix s fence"
  shows "HasPrefix (TrimSpace s) fence"
proof -
  from assms obtain t where s: "s = fence @ t"
    by (metis HasPrefix_def append_take_drop_id)
  have "\<exists>t'. TrimSpace (fence @ t) = fence @ t'"
    by (rule TrimSpace_keeps_prefix) (simp_all add: fence_eq isSpace_def)
  then show ?thesis by (auto simp: s HasPrefix_def)
qed

lemma short_of_fence_prefix:
  assumes "HasPrefix (s @ fence) fence" "\<not> HasPrefix s fence"
  shows "s = [] \<or> s = [96] \<or> s = [96, 96]"
proof (cases "length s < 3")
  case True
  then consider "s = []" | a where "s = [a]" | a b where "s = [a, b]"
    by (cases s rule: list.exhaust; simp; (rename_tac a t, case_tac t; simp); (rename_tac b u, case_tac u; simp))
  then show ?thesis
    using assms(1) by cases (auto simp: HasPrefix_def fence_eq)
next
  case False
  then have "take 3 (s @ fence) = take 3 s" by simp
  with assms False show ?thesis by (simp add: HasPrefix_def fence_eq)
qed


lemma TrimSpace_wrapped:
  assumes "p \<noteq> []" "\<not> isSpace (hd p)"
  shows "TrimSpace (p @ s @ fence) = p @ s @ fence"
  using assms by (intro TrimSpace_noop) (simp_all add: fence_eq isSpace_def)

lemma clean_unfenced:
  assumes "\<not> HasPrefix (TrimSpace s) fence" "\<not> HasSuffix (TrimSpace s) fence"
  shows "cleanResponse s = TrimSpace s"
proof -
  have "\<not> HasPrefix (TrimSpace s) fence_json"
  proof
    assume "HasPrefix (TrimSpace s) fence_json"
    then obtain t where "TrimSpace s = fence_json @ t"
      by (metis HasPrefix_def append_take_drop_id)
    then have "HasPrefix (TrimSpace s) fence"
      by (simp add: HasPrefix_def fence_eq fence_json_eq)
    with assms(1) show False by simp
  qed
  with assms show ?thesis
    by (simp add: cleanResponse_def Let_def TrimPrefix_def TrimSuffix_def TrimSpace_idem
        fence_def[symmetric] fence_json_def[symmetric])
qed

lemma clean_wrapped_json:
  assumes "\<not> HasPrefix (TrimSpace s) fence"
  shows "cleanResponse (fence_json @ s @ fence) = TrimSpace s"
proof -
  have nf: "\<not> HasPrefix s fence"
    using assms fenced_prefix_survives by blast
  have 1: "TrimSpace (fence_json @ s @ fence) = fence_json @ s @ fence"
    by (rule TrimSpace_wrapped) (simp_all add: fence_json_eq isSpace_def)
  have 2: "TrimSuffix (TrimPrefix (s @ fence) fence) fence = s"
  proof (cases "HasPrefix (s @ fence) fence")
    case True
    from short_of_fence_prefix[OF True nf] show ?thesis
      by (auto simp: TrimPrefix_def TrimSuffix_def HasPrefix_def HasSuffix_def fence_eq)
  next
    case False
    then show ?thesis by (simp add: TrimPrefix_def TrimSuffix_append)
  qed
  show ?thesis
    by (simp add: cleanResponse_def Let_def fence_def[symmetric] fence_json_def[symmetric]
        1 TrimPrefix_append 2)
qed

lemma no_json_after_fence:
  assumes "HasPrefix (fence @ s @ fence) fence_json"
  shows "HasPrefix s (runes ''json'')"
proof -
  from assms have t: "take 4 (s @ fence) = [106, 115, 111, 110]"
    by (simp add: HasPrefix_def fence_eq fence_json_eq eval_nat_numeral)
  have "4 \<le> length s"
  proof (rule ccontr)
    assume "\<not> 4 \<le> length s"
    then have "length s < 4" by simp
    then have "(s @ fence) ! length s = 96"
      by (simp add: nth_append fence_eq)
    moreover from t \<open>length s < 4\<close> have "(s @ fence) ! length s = [106, 115, 111, 110] ! length s"
      by (metis nth_take)
    moreover from \<open>length s < 4\<close> have "[106, 115, 111, 110] ! length s \<noteq> (96::nat)"
      by (cases "length s" rule: nat.exhaust; simp; rename_tac n; case_tac n; simp;
          rename_tac m; case_tac m; simp; rename_tac k; case_tac k; simp)
    ultimately show False by simp
  qed
  with t show ?thesis by (simp add: HasPrefix_def runes_json_eq eval_nat_numeral)
qed

lemma clean_wrapped_bare:
  assumes "\<not> HasPrefix s (runes ''json'')"
  shows "cleanResponse (fence @ s @ fence) = TrimSpace s"
proof -
  have 1: "TrimSpace (fence @ s @ fence) = fence @ s @ fence"
    by (rule TrimSpace_wrapped) (simp_all add: fence_eq isSpace_def)
  have 2: "TrimPrefix (fence @ s @ fence) fence_json = fence @ s @ fence"
    using assms no_json_after_fence by (auto simp: TrimPrefix_def)
  show ?thesis
    by (simp add: cleanResponse_def Let_def fence_def[symmetric] fence_json_def[symmetric]
        1 2 TrimPrefix_append TrimSuffix_append)
qed

subsection \<open>The branches of the handler\<close>

lemma fold_max_ge: "a \<le> fold max ids (a::int)"
proof (induction ids arbitrary: a)
  case Nil
  show ?case by simp
next
  case (Cons x xs)
  have "a \<le> max x a" by simp
  also have "\<dots> \<le> fold max xs (max x a)" by (rule Cons.IH)
  finally show ?case by simp
qed

lemma fold_max_upper: "x \<in> set ids \<Longrightarrow> x \<le> fold max ids (a::int)"
proof (induction ids arbitrary: a)
  case Nil
  then show ?case by simp
next
  case (Cons y ys)
  show ?case
  proof (cases "x = y")
    case True
    have "x \<le> max y a" using True by simp
    also have "\<dots> \<le> fold max ys (max y a)" by (rule fold_max_ge)
    finally show ?thesis by simp
  next
    case False
    with Cons.prems have "x \<in> set ys" by simp
    then show ?thesis using Cons.IH by simp
  qed
qed

lemma next_id_fresh: "x \<in> set ids \<Longrightarrow> x < next_id ids"
  using fold_max_upper[of x ids 0] by (simp add: next_id_def)

lemma find_append_none: "find P xs = None \<Longrightarrow> find P (xs @ ys) = find P ys"
  by (induction xs) (auto split: if_splits)

lemma find_new_receipt:
  "find (\<lambda>r. ID r = next_id (map ID rows)) (rows @ [r]) =
     (if ID r = next_id (map ID rows) then Some r else None)"
proof -
  have "find (\<lambda>r. ID r = next_id (map ID rows)) rows = None"
    using next_id_fresh[of _ "map ID rows"] by (fastforce simp: find_None_iff)
  then show ?thesis by (simp add: find_append_none)
qed

lemma ingest_registered:
  assumes "FormFile e = Some file" "type_accepted (ContentType file)"
    "SaveFile_err e = None" "Stat_err e = None" "InsertReceipt_err e = None"
    "LastInsertId_err e = None"
  shows "ingest e s =
    (let rid = next_id (map ID (receipts s));
         r1 = perform_ocr e (ContentType file) (save_path_of e file) (registered_store e file s);
         r2 = parse_with_gemini e rid (fst r1) (snd r1)
     in (case fst r2 of
           Panics \<Rightarrow> Panics
         | Returns geminiRep \<Rightarrow>
             Returns
               \<lparr>code = 201,
                body = IngestJSON
                  \<lparr>success = True, receipt_id = rid, uuid = uuid_New e,
                   original_name = Filename file, stored_name = stored_name_of e file,
                   file_size = int (length (Content file)), content_type = ContentType file,
                   upload_time = now_response e, file_path = save_path_of e file,
                   status = ''needs_review'', ocr = fst r1, gemini = geminiRep\<rparr>\<rparr>,
         snd r2))"
  using assms
  by (auto simp add: ingest_def Let_def log_event_def Stat_def type_accepted_def
      registered_store_def new_receipt_def save_path_of_def stored_name_of_def
      split: prod.splits outcome.splits)

lemma ingest_created:
  assumes "ingest e s = (Returns resp, s')" "body resp = IngestJSON b"
  shows "\<exists>file. FormFile e = Some file \<and> type_accepted (ContentType file) \<and>
    SaveFile_err e = None \<and> Stat_err e = None \<and> InsertReceipt_err e = None \<and>
    LastInsertId_err e = None"
  using assms
  by (auto simp add: ingest_def Let_def error_response_def Stat_def type_accepted_def
      split: option.splits if_splits sum.splits prod.splits outcome.splits)

lemma ingest_rejected:
  assumes "FormFile e = Some file" "\<not> type_accepted (ContentType file)"
  shows "ingest e s =
    (error_response 400 ''Invalid file type. Allowed: images (jpg, png, gif, webp) and PDF'', s)"
  using assms by (simp add: ingest_def type_accepted_def)

lemma ingest_save_failed:
  assumes "FormFile e = Some file" "type_accepted (ContentType file)" "SaveFile_err e = Some err"
  shows "ingest e s =
    (error_response 500 ''Failed to save file'',
     s\<lparr>trace := trace s @ [EvSaveFile (save_path_of e file)]\<rparr>)"
  using assms
  by (auto simp add: ingest_def Let_def log_event_def type_accepted_def save_path_of_def
      stored_name_of_def)

lemma ingest_stat_failed:
  assumes "FormFile e = Some file" "type_accepted (ContentType file)" "SaveFile_err e = None"
    "Stat_err e = Some err"
  shows "ingest e s =
    (error_response 500 ''Failed to get file info'',
     s\<lparr>uploads := (save_path_of e file, Content file) # uploads s,
       trace := trace s @ [EvSaveFile (save_path_of e file), EvStat (save_path_of e file)]\<rparr>)"
  using assms
  by (auto simp add: ingest_def Let_def log_event_def type_accepted_def save_path_of_def
      stored_name_of_def Stat_def)

lemma ingest_insert_failed:
  assumes "FormFile e = Some file" "type_accepted (ContentType file)" "SaveFile_err e = None"
    "Stat_err e = None" "InsertReceipt_err e = Some err"
  shows "ingest e s =
    (error_response 500 ''Failed to save receipt to database'',
     s\<lparr>uploads := (save_path_of e file, Content file) # uploads s,
       trace := trace s @ [EvSaveFile (save_path_of e file), EvStat (save_path_of e file),
                           EvInsertReceipt (stored_name_of e file) ''needs_review'']\<rparr>)"
  using assms
  by (auto simp add: ingest_def Let_def log_event_def type_accepted_def save_path_of_def
      stored_name_of_def Stat_def)

lemma ingest_lastid_failed:
  assumes "FormFile e = Some file" "type_accepted (ContentType file)" "SaveFile_err e = None"
    "Stat_err e = None" "InsertReceipt_err e = None" "LastInsertId_err e = Some err"
  shows "ingest e s = (error_response 500 ''Failed to get receipt ID'', registered_store e file s)"
  using assms
  by (auto simp add: ingest_def Let_def log_event_def type_accepted_def save_path_of_def
      stored_name_of_def Stat_def registered_store_def new_receipt_def)

lemma perform_ocr_store:
  assumes "map_of (uploads s) p = Some fileBytes"
  shows "snd (perform_ocr e ct p s) = s\<lparr>trace := trace s @ ocr_calls e ct p fileBytes\<rparr>"
  using assms
  by (auto simp add: perform_ocr_def Let_def log_event_def ReadFile_def ocr_calls_def
      split: sum.splits option.splits)

lemma perform_ocr_status:
  assumes "map_of (uploads s) p = Some fileBytes"
  shows "ocr_status (fst (perform_ocr e ct p s)) =
     (if ct = ''application/pdf'' \<or> ct = '''' then ''skipped''
      else if ReadFile_err e \<noteq> None \<or> SetImageFromBytes e fileBytes \<noteq> None \<or>
              isl (OcrText e fileBytes) then ''failed''
      else ''success'')"
  using assms
  by (auto simp add: perform_ocr_def Let_def log_event_def ReadFile_def
      split: sum.splits option.splits)

lemma registered_store_file:
  "map_of (uploads (registered_store e file s)) (save_path_of e file) = Some (Content file)"
  by (simp add: registered_store_def)


lemma gemini_parse_failure:
  assumes "ocr_status r = ''success''" "ocr_text r \<noteq> []"
    "NewGeminiClient e = Inr model"
    "AnalyzeReceiptTextWithPrompt e model (ocr_text r) = Returns (gresp, None)" "Success gresp"
    "json_Unmarshal e (cleanResponse (Text gresp)) = Inl perr"
  shows "parse_with_gemini e rid r s =
    (Returns
       \<lparr>gemini_status = ''success'', gemini_analysis = Text gresp,
        gemini_error = ''Failed to parse JSON: '' @ perr, gemini_parsed = None\<rparr>,
     s\<lparr>trace := trace s @ [EvNewGeminiClient, EvGenerateContent, EvUnmarshal]\<rparr>)"
  using assms by (simp add: parse_with_gemini_def Let_def log_event_def)

lemma gemini_status_values:
  assumes "fst (parse_with_gemini e rid r s) = Returns g"
  shows "gemini_status g = ''skipped'' \<and> \<not> (ocr_status r = ''success'' \<and> ocr_text r \<noteq> []) \<or>
    (gemini_status g = ''failed'' \<or> gemini_status g = ''success'') \<and>
      ocr_status r = ''success'' \<and> ocr_text r \<noteq> []"
  using assms
  by (auto simp add: parse_with_gemini_def Let_def
      split: sum.splits option.splits prod.splits outcome.splits if_splits)

text \<open>The extraction stage panics exactly when it runs and the Gemini client panics.\<close>

lemma gemini_panics_iff:
  "fst (parse_with_gemini e rid r s) = Panics \<longleftrightarrow>
     ocr_status r = ''success'' \<and> ocr_text r \<noteq> [] \<and>
     (\<exists>model. NewGeminiClient e = Inr model \<and>
        AnalyzeReceiptTextWithPrompt e model (ocr_text r) = Panics)"
  by (auto simp add: parse_with_gemini_def Let_def
      split: sum.splits option.splits prod.splits outcome.splits if_splits)

lemma gemini_store:
  "\<exists>evs. filter is_ocr_event evs = [] \<and>
     trace (snd (parse_with_gemini e rid r s)) = trace s @ evs \<and>
     uploads (snd (parse_with_gemini e rid r s)) = uploads s \<and>
     (receipts (snd (parse_with_gemini e rid r s)) = receipts s \<or>
      receipts (snd (parse_with_gemini e rid r s)) = update_status rid ''processed'' (receipts s))"
  by (simp add: parse_with_gemini_def Let_def log_event_def is_ocr_event_def
      split: sum.splits option.splits prod.splits outcome.splits)

lemma gemini_parsed_stored:
  assumes "fst (parse_with_gemini e rid r s) = Returns g" "gemini_parsed g = Some d"
    "InsertTransaction_err e = None"
  shows "transactions (snd (parse_with_gemini e rid r s)) =
    transactions s @ [transaction_row e s rid d]"
  using assms
  by (auto simp add: parse_with_gemini_def Let_def log_event_def transaction_row_def
      split: sum.splits option.splits prod.splits if_splits outcome.splits)

lemma filter_ocr_calls:
  "filter is_ocr_event (ocr_calls e ct p fileBytes) = ocr_calls e ct p fileBytes"
  by (simp add: ocr_calls_def is_ocr_event_def)

lemma ocr_calls_no_extraction:
  "filter is_extraction_event (ocr_calls e ct p fileBytes) = []"
  by (simp add: ocr_calls_def is_extraction_event_def)

lemma update_status_keeps:
  "map ID (update_status rid st rows) = map ID rows"
  "map FileName (update_status rid st rows) = map FileName rows"
  by (simp_all add: update_status_def)

lemma ingest_registered_store:
  assumes "FormFile e = Some file" "type_accepted (ContentType file)"
    "SaveFile_err e = None" "Stat_err e = None" "InsertReceipt_err e = None"
    "LastInsertId_err e = None"
  shows "\<exists>evs. filter is_ocr_event evs = [] \<and>
     trace (snd (ingest e s)) =
       trace (registered_store e file s) @
       ocr_calls e (ContentType file) (save_path_of e file) (Content file) @ evs \<and>
     uploads (snd (ingest e s)) = uploads (registered_store e file s) \<and>
     (receipts (snd (ingest e s)) = receipts (registered_store e file s) \<or>
      receipts (snd (ingest e s)) =
        update_status (next_id (map ID (receipts s))) ''processed''
          (receipts (registered_store e file s)))"
proof -
  let ?p = "save_path_of e file"
  define s1 where "s1 = registered_store e file s"
  define r1 where "r1 = perform_ocr e (ContentType file) ?p s1"
  have r1: "snd r1 = s1\<lparr>trace := trace s1 @ ocr_calls e (ContentType file) ?p (Content file)\<rparr>"
    unfolding r1_def s1_def by (rule perform_ocr_store[OF registered_store_file])
  have s': "snd (ingest e s) =
      snd (parse_with_gemini e (next_id (map ID (receipts s))) (fst r1) (snd r1))"
    by (simp add: ingest_registered[OF assms] Let_def r1_def s1_def)
  from gemini_store[of e "next_id (map ID (receipts s))" "fst r1" "snd r1"]
  show ?thesis unfolding s' by (simp add: r1 s1_def)
qed

text \<open>
  The calls of an accepted request begin with the save of the file, go on to the file
  information and the insert of the receipt, and stop at the first of them that fails.
\<close>

lemma ingest_first_calls:
  assumes "FormFile e = Some file" "type_accepted (ContentType file)"
  shows "\<exists>rest. new_events s (snd (ingest e s)) =
     EvSaveFile (save_path_of e file) #
       (if SaveFile_err e \<noteq> None then []
        else EvStat (save_path_of e file) #
          (if Stat_err e \<noteq> None then []
           else EvInsertReceipt (stored_name_of e file) ''needs_review'' #
             (if InsertReceipt_err e \<noteq> None then [] else EvLastInsertId # rest)))"
proof (cases "SaveFile_err e")
  case (Some err)
  from ingest_save_failed[OF assms Some] Some show ?thesis
    by (simp add: new_events_def)
next
  case None
  note sv = this
  show ?thesis
  proof (cases "Stat_err e")
    case (Some err)
    from ingest_stat_failed[OF assms sv Some] sv Some show ?thesis
      by (simp add: new_events_def)
  next
    case None
    note st = this
    show ?thesis
    proof (cases "InsertReceipt_err e")
      case (Some err)
      from ingest_insert_failed[OF assms sv st Some] sv st Some show ?thesis
        by (simp add: new_events_def)
    next
      case None
      note ins = this
      show ?thesis
      proof (cases "LastInsertId_err e")
        case (Some err)
        from ingest_lastid_failed[OF assms sv st ins Some] sv st ins show ?thesis
          by (simp add: new_events_def registered_store_def)
      next
        case None
        from ingest_registered_store[OF assms sv st ins None, of s] sv st ins show ?thesis
          by (auto simp add: new_events_def registered_store_def)
      qed
    qed
  qed
qed

text \<open>The response of a request that reaches the end carries the same state, always.\<close>

lemma response_status_is_constant:
  assumes "ingest e s = (Returns resp, s')" "body resp = IngestJSON b"
  shows "status b = ''needs_review''"
proof -
  from ingest_created[OF assms] obtain "file" where
    reg: "FormFile e = Some file" "type_accepted (ContentType file)" "SaveFile_err e = None"
      "Stat_err e = None" "InsertReceipt_err e = None" "LastInsertId_err e = None"
    by blast
  from assms show ?thesis
    by (auto simp add: ingest_registered[OF reg] Let_def split: outcome.splits)
qed

text \<open>
  What a request does to the two tables when the update of the receipt does not fail, and
  the invariant it then keeps.
\<close>

lemma gemini_tables:
  assumes "UpdateReceipt_err e = None"
  shows "transactions (snd (parse_with_gemini e rid r s)) = transactions s \<and>
      receipts (snd (parse_with_gemini e rid r s)) = receipts s \<or>
    (\<exists>t. tx_ReceiptID t = rid \<and>
      transactions (snd (parse_with_gemini e rid r s)) = transactions s @ [t] \<and>
      receipts (snd (parse_with_gemini e rid r s)) = update_status rid ''processed'' (receipts s))"
  using assms
  by (simp add: parse_with_gemini_def Let_def log_event_def transaction_row_def
      split: sum.splits option.splits prod.splits outcome.splits)

lemma ingest_tables:
  assumes "UpdateReceipt_err e = None"
  shows "receipts (snd (ingest e s)) = receipts s \<and>
      transactions (snd (ingest e s)) = transactions s \<or>
    (\<exists>row. ID row = next_id (map ID (receipts s)) \<and> Status row = ''needs_review'' \<and>
      (receipts (snd (ingest e s)) = receipts s @ [row] \<and>
       transactions (snd (ingest e s)) = transactions s \<or>
       (\<exists>t. tx_ReceiptID t = ID row \<and>
          receipts (snd (ingest e s)) = update_status (ID row) ''processed'' (receipts s @ [row]) \<and>
          transactions (snd (ingest e s)) = transactions s @ [t])))"
proof (cases "FormFile e")
  case None
  then show ?thesis by (simp add: ingest_def)
next
  case (Some "file")
  note f = this
  show ?thesis
  proof (cases "type_accepted (ContentType file)")
    case False
    from ingest_rejected[OF f False] show ?thesis by simp
  next
    case True
    note acc = this
    show ?thesis
    proof (cases "SaveFile_err e")
      case (Some err)
      from ingest_save_failed[OF f acc Some] show ?thesis by simp
    next
      case None
      note sv = this
      show ?thesis
      proof (cases "Stat_err e")
        case (Some err)
        from ingest_stat_failed[OF f acc sv Some] show ?thesis by simp
      next
        case None
        note st = this
        show ?thesis
        proof (cases "InsertReceipt_err e")
          case (Some err)
          from ingest_insert_failed[OF f acc sv st Some] show ?thesis by simp
        next
          case None
          note ins = this
          have row: "ID (new_receipt e file s) = next_id (map ID (receipts s))"
            "Status (new_receipt e file s) = ''needs_review''"
            by (simp_all add: new_receipt_def)
          show ?thesis
          proof (cases "LastInsertId_err e")
            case (Some err)
            from ingest_lastid_failed[OF f acc sv st ins Some] row show ?thesis
              by (intro disjI2 exI[of _ "new_receipt e file s"]) (simp add: registered_store_def)
          next
            case None
            define s1 where "s1 = registered_store e file s"
            define r1 where "r1 = perform_ocr e (ContentType file) (save_path_of e file) s1"
            have r1: "snd r1 =
                s1\<lparr>trace := trace s1 @
                  ocr_calls e (ContentType file) (save_path_of e file) (Content file)\<rparr>"
              unfolding r1_def s1_def by (rule perform_ocr_store[OF registered_store_file])
            have s': "snd (ingest e s) =
                snd (parse_with_gemini e (next_id (map ID (receipts s))) (fst r1) (snd r1))"
              by (simp add: ingest_registered[OF f acc sv st ins None] Let_def r1_def s1_def)
            from gemini_tables[OF assms, of "next_id (map ID (receipts s))" "fst r1" "snd r1"] row
            show ?thesis
              unfolding s'
              by (intro disjI2 exI[of _ "new_receipt e file s"])
                 (auto simp add: r1 s1_def registered_store_def)
          qed
        qed
      qed
    qed
  qed
qed

lemma invariant_kept_when_update_succeeds:
  assumes "tx_iff_processed s" "tx_owned s" "UpdateReceipt_err e = None"
  shows "tx_iff_processed (snd (ingest e s)) \<and> tx_owned (snd (ingest e s))"
proof -
  let ?nid = "next_id (map ID (receipts s))"
  have fresh: "ID r \<noteq> ?nid" if "r \<in> set (receipts s)" for r
    using next_id_fresh[of "ID r" "map ID (receipts s)"] that by auto
  have unowned: "?nid \<notin> set (map tx_ReceiptID (transactions s))"
  proof
    assume "?nid \<in> set (map tx_ReceiptID (transactions s))"
    with assms(2) have "?nid \<in> set (map ID (receipts s))"
      by (auto simp add: tx_owned_def)
    with next_id_fresh[of ?nid "map ID (receipts s)"] show False by simp
  qed
  from ingest_tables[OF assms(3), of s]
  consider
    (same) "receipts (snd (ingest e s)) = receipts s"
      "transactions (snd (ingest e s)) = transactions s"
  | (registered) row where "ID row = ?nid" "Status row = ''needs_review''"
      "receipts (snd (ingest e s)) = receipts s @ [row]"
      "transactions (snd (ingest e s)) = transactions s"
  | (processed) row t where "ID row = ?nid" "tx_ReceiptID t = ?nid"
      "receipts (snd (ingest e s)) = update_status ?nid ''processed'' (receipts s @ [row])"
      "transactions (snd (ingest e s)) = transactions s @ [t]"
    by auto
  then show ?thesis
  proof cases
    case same
    with assms(1,2) show ?thesis by (simp add: tx_iff_processed_def tx_owned_def)
  next
    case registered
    with assms(1,2) unowned show ?thesis
      by (auto simp add: tx_iff_processed_def tx_owned_def)
  next
    case processed
    have old: "update_status ?nid ''processed'' (receipts s) = receipts s"
      using fresh by (simp add: update_status_def map_idI)
    have rc: "receipts (snd (ingest e s)) = receipts s @ [row\<lparr>Status := ''processed''\<rparr>]"
      using processed(1,3) old by (simp add: update_status_def)
    from assms(1,2) fresh processed(1,2) show ?thesis
      by (auto simp add: tx_iff_processed_def tx_owned_def rc processed(4))
  qed
qed

lemmas handler_defs =
  ingest_def Let_def log_event_def Stat_def allowedTypes_def error_response_def
  perform_ocr_def ReadFile_def parse_with_gemini_def NewGeminiClient_def
  AnalyzeReceiptTextWithPrompt_def GenerateText_def next_id_def update_status_def
  transaction_row_def NullString_def NullFloat64_def receipt_state_def Ext_def
  cleanResponse_def TrimSpace_def TrimPrefix_def TrimSuffix_def HasPrefix_def HasSuffix_def
  runes_def isSpace_def new_events_def

lemmas scenario_defs =
  scenario_A_def jpeg_upload_def empty_store_def scenario_decoder_def walmart_json_def
  walmart_data_def zero_data_def scenario_C_def apology_def fence_def fence_json_def

text \<open>
  When the Gemini client panics, and what a registered request ends with: the response 201,
  or the panic of the Gemini client.
\<close>

lemma GenerateText_panics_iff:
  "GenerateText e model prompt = Panics \<longleftrightarrow>
     (\<exists>resp rest. GenerateContent e model prompt = Inr resp \<and>
        (Candidates resp = None # rest \<or>
         (\<exists>parts. Candidates resp = Some parts # rest \<and> UsageMetadata resp = None)))"
  by (auto simp add: GenerateText_def split: sum.splits list.splits option.splits)

lemma registered_request_answers_201_or_panics:
  assumes "FormFile e = Some file" "type_accepted (ContentType file)"
    "SaveFile_err e = None" "Stat_err e = None" "InsertReceipt_err e = None"
    "LastInsertId_err e = None"
  shows "fst (ingest e s) = Panics \<or>
    (\<exists>b. fst (ingest e s) = Returns \<lparr>code = 201, body = IngestJSON b\<rparr> \<and> success b \<and>
      (ocr_status (ocr b) = ''failed'' \<longrightarrow> gemini_status (gemini b) = ''skipped'') \<and>
      (gemini_status (gemini b) = ''failed'' \<longrightarrow> ocr_status (ocr b) = ''success''))"
proof -
  let ?rid = "next_id (map ID (receipts s))"
  define r1 where
    "r1 = perform_ocr e (ContentType file) (save_path_of e file) (registered_store e file s)"
  define r2 where "r2 = parse_with_gemini e ?rid (fst r1) (snd r1)"
  show ?thesis
  proof (cases "fst r2")
    case Panics
    then show ?thesis
      by (simp add: ingest_registered[OF assms] Let_def r1_def r2_def)
  next
    case (Returns g)
    from gemini_status_values[OF Returns[unfolded r2_def]]
    have "(ocr_status (fst r1) = ''failed'' \<longrightarrow> gemini_status g = ''skipped'') \<and>
      (gemini_status g = ''failed'' \<longrightarrow> ocr_status (fst r1) = ''success'')"
      by auto
    with Returns show ?thesis
      by (simp add: ingest_registered[OF assms] Let_def r1_def r2_def)
  qed
qed

subsection \<open>The claims\<close>

text \<open>
  Claim C1: the lifecycle state in the response equals the state of the receipt once the
  extraction stage is over; in scenario A the response shows \<open>processed\<close>.
  The handler writes the literal \<open>needs_review\<close> into the response. In scenario A the
  transaction is inserted and the receipt row is updated to \<open>processed\<close>, and the response
  still says \<open>needs_review\<close>.
\<close>

theorem response_state_stale_after_processing:
  "(case ingest scenario_A empty_store of
      (out, s') \<Rightarrow>
        (case out of
           Panics \<Rightarrow> False
         | Returns resp \<Rightarrow>
             code resp = 201 \<and>
             (case body resp of
                ErrorJSON msg \<Rightarrow> False
              | IngestJSON b \<Rightarrow>
                  receipt_id b = 1 \<and>
                  gemini_status (gemini b) = ''success'' \<and>
                  gemini_parsed (gemini b) = Some walmart_data \<and>
                  map tx_ReceiptID (transactions s') = [1] \<and>
                  map tx_Amount (transactions s') = [Some (4567 / 100)] \<and>
                  receipt_state s' (receipt_id b) = Some ''processed'' \<and>
                  status b = ''needs_review'')))"
  by (simp add: handler_defs scenario_defs)

text \<open>
  Claim C2: after a request, a receipt has a transaction if and only if its state is
  \<open>processed\<close>. The handler checks the error of the insert of the transaction and drops
  that of the update of the receipt: when the update fails after the insert went through,
  the receipt has a transaction and is still \<open>needs_review\<close>.
\<close>

theorem transaction_without_processed_state:
  "(case ingest (scenario_A\<lparr>UpdateReceipt_err := Some ''Error 1205: Lock wait timeout exceeded''\<rparr>)
          empty_store of
      (out, s') \<Rightarrow>
        (case out of
           Panics \<Rightarrow> False
         | Returns resp \<Rightarrow>
             code resp = 201 \<and>
             map ID (receipts s') = [1] \<and>
             map tx_ReceiptID (transactions s') = [1] \<and>
             receipt_state s' 1 = Some ''needs_review''))"
  by (simp add: handler_defs scenario_defs)

text \<open>
  Claim C3: a file is accepted only when its declared content type is in the allow-list,
  and every other request is rejected with a client error before any side effect.
  The guard of the handler lets an empty content type through: such a request is accepted,
  its file stored and its receipt registered.
\<close>

theorem empty_content_type_accepted:
  "\<not> allowedTypes '''' \<and>
   (case ingest (scenario_A\<lparr>FormFile := Some (jpeg_upload\<lparr>ContentType := ''''\<rparr>)\<rparr>) empty_store of
      (out, s') \<Rightarrow>
        (case out of
           Panics \<Rightarrow> False
         | Returns resp \<Rightarrow>
             code resp = 201 \<and>
             map fst (uploads s') =
               [''uploads/123e4567-e89b-12d3-a456-426614174000_20240115_103000.jpg''] \<and>
             map Status (receipts s') = [''needs_review'']))"
  by (simp add: handler_defs scenario_defs)

text \<open>
  Claim C3, amended: a request whose declared content type is not empty and not in the
  allow-list (the five formats, JPEG under two names) is answered 400 with a JSON error
  message, and the store and the trace are left as they were; a request whose content type
  is empty or in the allow-list goes on to save the file.
\<close>

theorem content_type_gate:
  assumes "FormFile e = Some file"
  shows "(ContentType file \<noteq> '''' \<and> \<not> allowedTypes (ContentType file) \<longrightarrow>
            ingest e s =
              (Returns
                 \<lparr>code = 400,
                  body = ErrorJSON
                    ''Invalid file type. Allowed: images (jpg, png, gif, webp) and PDF''\<rparr>, s)) \<and>
         (ContentType file = '''' \<or> allowedTypes (ContentType file) \<longrightarrow>
            (\<exists>rest. new_events s (snd (ingest e s)) = EvSaveFile (save_path_of e file) # rest)) \<and>
         (allowedTypes (ContentType file) \<longleftrightarrow>
            ContentType file = ''image/jpeg'' \<or> ContentType file = ''image/jpg'' \<or>
            ContentType file = ''image/png'' \<or> ContentType file = ''image/gif'' \<or>
            ContentType file = ''image/webp'' \<or> ContentType file = ''application/pdf'')"
proof (intro conjI impI)
  assume "ContentType file \<noteq> '''' \<and> \<not> allowedTypes (ContentType file)"
  then have "\<not> type_accepted (ContentType file)"
    by (simp add: type_accepted_def)
  from ingest_rejected[OF assms this]
  show "ingest e s =
     (Returns
        \<lparr>code = 400,
         body = ErrorJSON ''Invalid file type. Allowed: images (jpg, png, gif, webp) and PDF''\<rparr>,
      s)"
    by (simp add: error_response_def)
next
  assume "ContentType file = '''' \<or> allowedTypes (ContentType file)"
  then have "type_accepted (ContentType file)"
    by (simp add: type_accepted_def)
  from ingest_first_calls[OF assms this, of s]
  show "\<exists>rest. new_events s (snd (ingest e s)) = EvSaveFile (save_path_of e file) # rest"
    by blast
qed (simp add: allowedTypes_def)

theorem content_type_gate_witness:
  "FormFile (scenario_A\<lparr>FormFile := Some (jpeg_upload\<lparr>ContentType := ''text/plain''\<rparr>)\<rparr>) =
     Some (jpeg_upload\<lparr>ContentType := ''text/plain''\<rparr>) \<and>
   \<not> allowedTypes ''text/plain'' \<and>
   ingest (scenario_A\<lparr>FormFile := Some (jpeg_upload\<lparr>ContentType := ''text/plain''\<rparr>)\<rparr>) empty_store =
     (Returns
        \<lparr>code = 400,
         body = ErrorJSON ''Invalid file type. Allowed: images (jpg, png, gif, webp) and PDF''\<rparr>,
      empty_store) \<and>
   allowedTypes (ContentType jpeg_upload) \<and>
   (\<exists>rest. new_events empty_store (snd (ingest scenario_A empty_store)) =
      EvSaveFile ''uploads/123e4567-e89b-12d3-a456-426614174000_20240115_103000.jpg'' # rest)"
proof -
  let ?plain = "jpeg_upload\<lparr>ContentType := ''text/plain''\<rparr>"
  have f1: "FormFile (scenario_A\<lparr>FormFile := Some ?plain\<rparr>) = Some ?plain"
    by simp
  have n: "ContentType ?plain = ''text/plain''" "\<not> allowedTypes ''text/plain''"
    by (simp_all add: allowedTypes_def)
  have f2: "FormFile scenario_A = Some jpeg_upload"
    by (simp add: scenario_A_def)
  have a: "allowedTypes (ContentType jpeg_upload)"
    by (simp add: allowedTypes_def jpeg_upload_def)
  have p: "save_path_of scenario_A jpeg_upload =
      ''uploads/123e4567-e89b-12d3-a456-426614174000_20240115_103000.jpg''"
    by (simp add: save_path_of_def stored_name_of_def Ext_def scenario_A_def jpeg_upload_def)
  from content_type_gate[OF f1, of empty_store] content_type_gate[OF f2, of empty_store]
  show ?thesis using f1 n a by (simp add: p)
qed

text \<open>
  Claim C4: the OCR stage is skipped if and only if the content type is PDF.
  A request with an empty content type is accepted and its OCR stage is skipped as well,
  with the message written for PDF files.
\<close>

theorem pdf_is_not_the_only_skip:
  "(case ingest (scenario_A\<lparr>FormFile := Some (jpeg_upload\<lparr>ContentType := ''''\<rparr>)\<rparr>) empty_store of
      (out, s') \<Rightarrow>
        (case out of
           Panics \<Rightarrow> False
         | Returns resp \<Rightarrow>
             code resp = 201 \<and>
             (case body resp of
                ErrorJSON msg \<Rightarrow> False
              | IngestJSON b \<Rightarrow>
                  content_type b \<noteq> ''application/pdf'' \<and>
                  ocr_status (ocr b) = ''skipped'' \<and>
                  ocr_error (ocr b) = ''PDF files require separate processing'')))"
  by (simp add: handler_defs scenario_defs)

text \<open>
  Claim C4, amended: for a request that reaches the OCR stage, the stage is skipped if and
  only if the content type is PDF or empty, and then no OCR call is made; for every other
  content type the file is read once, the image set at most once and the text extracted at
  most once (\<open>ocr_calls\<close>), and the status is \<open>failed\<close> exactly when the file cannot be read
  or the OCR engine returns an error, \<open>success\<close> otherwise; it is never \<open>skipped\<close>.
\<close>

theorem ocr_stage_policy:
  assumes "ingest e s = (Returns resp, s')" "body resp = IngestJSON b" "FormFile e = Some file"
  shows "(ocr_status (ocr b) = ''skipped'' \<longleftrightarrow>
            ContentType file = ''application/pdf'' \<or> ContentType file = '''') \<and>
         filter is_ocr_event (new_events s s') =
            ocr_calls e (ContentType file) (save_path_of e file) (Content file) \<and>
         (ContentType file \<noteq> ''application/pdf'' \<and> ContentType file \<noteq> '''' \<longrightarrow>
            (ocr_status (ocr b) = ''failed'' \<longleftrightarrow>
               ReadFile_err e \<noteq> None \<or> SetImageFromBytes e (Content file) \<noteq> None \<or>
               isl (OcrText e (Content file))) \<and>
            (ocr_status (ocr b) = ''failed'' \<or> ocr_status (ocr b) = ''success''))"
proof -
  from ingest_created[OF assms(1,2)] assms(3)
  have reg: "type_accepted (ContentType file)" "SaveFile_err e = None" "Stat_err e = None"
    "InsertReceipt_err e = None" "LastInsertId_err e = None"
    by auto
  let ?p = "save_path_of e file"
  define s1 where "s1 = registered_store e file s"
  define r1 where "r1 = perform_ocr e (ContentType file) ?p s1"
  from assms(1,2) have b: "ocr b = fst r1"
    by (auto simp add: ingest_registered[OF assms(3) reg] Let_def r1_def s1_def
        split: outcome.splits)
  have st: "ocr_status (ocr b) =
     (if ContentType file = ''application/pdf'' \<or> ContentType file = '''' then ''skipped''
      else if ReadFile_err e \<noteq> None \<or> SetImageFromBytes e (Content file) \<noteq> None \<or>
              isl (OcrText e (Content file)) then ''failed''
      else ''success'')"
    unfolding b r1_def s1_def by (rule perform_ocr_status[OF registered_store_file])
  from ingest_registered_store[OF assms(3) reg, of s] assms(1)
  have ev: "filter is_ocr_event (new_events s s') =
      ocr_calls e (ContentType file) ?p (Content file)"
    by (auto simp add: new_events_def registered_store_def is_ocr_event_def filter_ocr_calls)
  show ?thesis using st ev by auto
qed

theorem ocr_stage_policy_witness:
  "FormFile scenario_A = Some jpeg_upload \<and>
   ContentType jpeg_upload = ''image/jpeg'' \<and>
   (\<exists>b. fst (ingest scenario_A empty_store) = Returns \<lparr>code = 201, body = IngestJSON b\<rparr> \<and>
      ocr_status (ocr b) = ''success'') \<and>
   filter is_ocr_event (new_events empty_store (snd (ingest scenario_A empty_store))) =
     [EvReadFile ''uploads/123e4567-e89b-12d3-a456-426614174000_20240115_103000.jpg'',
      EvSetImageFromBytes, EvOcrText]"
proof -
  let ?resp = "case fst (ingest scenario_A empty_store) of Returns r \<Rightarrow> r"
  let ?b = "case body ?resp of IngestJSON b \<Rightarrow> b"
  have run: "ingest scenario_A empty_store = (Returns ?resp, snd (ingest scenario_A empty_store))"
    by (simp add: handler_defs scenario_defs)
  have b: "body ?resp = IngestJSON ?b"
    by (simp add: handler_defs scenario_defs)
  have r: "fst (ingest scenario_A empty_store) = Returns \<lparr>code = 201, body = IngestJSON ?b\<rparr>"
    by (simp add: handler_defs scenario_defs)
  have f: "FormFile scenario_A = Some jpeg_upload"
    by (simp add: scenario_A_def)
  have c: "ContentType jpeg_upload = ''image/jpeg''" "Content jpeg_upload = [255, 216, 255, 224]"
    by (simp_all add: jpeg_upload_def)
  have p: "save_path_of scenario_A jpeg_upload =
      ''uploads/123e4567-e89b-12d3-a456-426614174000_20240115_103000.jpg''"
    by (simp add: save_path_of_def stored_name_of_def Ext_def scenario_A_def jpeg_upload_def)
  have o: "ocr_calls scenario_A ''image/jpeg'' q [255, 216, 255, 224] =
      [EvReadFile q, EvSetImageFromBytes, EvOcrText]" for q
    by (simp add: ocr_calls_def scenario_A_def)
  have i: "\<not> isl (OcrText scenario_A [255, 216, 255, 224])"
    "ReadFile_err scenario_A = None" "SetImageFromBytes scenario_A [255, 216, 255, 224] = None"
    by (simp_all add: scenario_A_def)
  from ocr_stage_policy[OF run b f]
  have "ocr_status (ocr ?b) = ''success''"
    and "filter is_ocr_event (new_events empty_store (snd (ingest scenario_A empty_store))) =
      [EvReadFile ''uploads/123e4567-e89b-12d3-a456-426614174000_20240115_103000.jpg'',
       EvSetImageFromBytes, EvOcrText]"
    by (auto simp add: c p o i)
  with f c(1) r show ?thesis by blast
qed

text \<open>
  Claim C5: when the extraction capability succeeds and its cleaned answer does not decode,
  the extraction status stays \<open>success\<close>, the raw analysis text is returned with a separate
  parse error, no transaction is created, the receipt stays \<open>needs_review\<close> and the
  request succeeds.
\<close>

theorem parse_failure_is_not_fatal:
  assumes "ingest e s = (Returns resp, s')" "body resp = IngestJSON b"
    "ocr_status (ocr b) = ''success''" "ocr_text (ocr b) \<noteq> ''''"
    "NewGeminiClient e = Inr model"
    "AnalyzeReceiptTextWithPrompt e model (ocr_text (ocr b)) = Returns (gresp, None)"
    "Success gresp"
    "json_Unmarshal e (cleanResponse (Text gresp)) = Inl perr"
  shows "code resp = 201 \<and> success b \<and>
    gemini_status (gemini b) = ''success'' \<and>
    gemini_analysis (gemini b) = Text gresp \<and>
    gemini_error (gemini b) = ''Failed to parse JSON: '' @ perr \<and>
    gemini_parsed (gemini b) = None \<and>
    transactions s' = transactions s \<and>
    filter is_extraction_event (new_events s s') =
      [EvNewGeminiClient, EvGenerateContent, EvUnmarshal] \<and>
    receipt_state s' (receipt_id b) = Some ''needs_review''"
proof -
  from ingest_created[OF assms(1,2)] obtain "file" where
    reg: "FormFile e = Some file" "type_accepted (ContentType file)" "SaveFile_err e = None"
      "Stat_err e = None" "InsertReceipt_err e = None" "LastInsertId_err e = None"
    by blast
  let ?p = "save_path_of e file"
  let ?rid = "next_id (map ID (receipts s))"
  define s1 where "s1 = registered_store e file s"
  define r1 where "r1 = perform_ocr e (ContentType file) ?p s1"
  define r2 where "r2 = parse_with_gemini e ?rid (fst r1) (snd r1)"
  from assms(1,2) have b: "code resp = 201" "success b" "ocr b = fst r1"
    "fst r2 = Returns (gemini b)" "receipt_id b = ?rid" and s': "s' = snd r2"
    by (auto simp add: ingest_registered[OF reg] Let_def s1_def r1_def r2_def
        split: outcome.splits)
  have r1: "snd r1 = s1\<lparr>trace := trace s1 @ ocr_calls e (ContentType file) ?p (Content file)\<rparr>"
    unfolding r1_def s1_def by (rule perform_ocr_store[OF registered_store_file])
  have r2: "r2 =
    (Returns
       \<lparr>gemini_status = ''success'', gemini_analysis = Text gresp,
        gemini_error = ''Failed to parse JSON: '' @ perr, gemini_parsed = None\<rparr>,
     (snd r1)\<lparr>trace := trace (snd r1) @ [EvNewGeminiClient, EvGenerateContent, EvUnmarshal]\<rparr>)"
    using assms(3-8) unfolding b(3) r2_def by (rule gemini_parse_failure)
  have g: "gemini b =
      \<lparr>gemini_status = ''success'', gemini_analysis = Text gresp,
       gemini_error = ''Failed to parse JSON: '' @ perr, gemini_parsed = None\<rparr>"
    using b(4) by (simp add: r2)
  have st: "receipt_state s' ?rid = Some ''needs_review''"
    by (simp add: s' r2 r1 s1_def receipt_state_def registered_store_def find_new_receipt
        new_receipt_def)
  have tr: "transactions s' = transactions s"
    by (simp add: s' r2 r1 s1_def registered_store_def)
  have ev: "filter is_extraction_event (new_events s s') =
      [EvNewGeminiClient, EvGenerateContent, EvUnmarshal]"
    by (simp add: s' r2 r1 s1_def registered_store_def new_events_def ocr_calls_no_extraction
        is_extraction_event_def)
  show ?thesis using b(1,2,5) st tr ev by (simp add: g)
qed

theorem parse_failure_is_not_fatal_witness:
  "json_Unmarshal scenario_C (cleanResponse apology) = Inl ''invalid character'' \<and>
   (\<exists>b. fst (ingest scenario_C empty_store) = Returns \<lparr>code = 201, body = IngestJSON b\<rparr> \<and>
      gemini_status (gemini b) = ''success'' \<and>
      gemini_error (gemini b) = ''Failed to parse JSON: invalid character'') \<and>
   transactions (snd (ingest scenario_C empty_store)) = [] \<and>
   receipt_state (snd (ingest scenario_C empty_store)) 1 = Some ''needs_review''"
proof -
  let ?resp = "case fst (ingest scenario_C empty_store) of Returns r \<Rightarrow> r"
  let ?b = "case body ?resp of IngestJSON b \<Rightarrow> b"
  let ?g = "\<lparr>Text = apology, Success = True, Error = '''', TokenCount = 60\<rparr>"
  have run: "ingest scenario_C empty_store = (Returns ?resp, snd (ingest scenario_C empty_store))"
    by (simp add: handler_defs scenario_defs)
  have b: "body ?resp = IngestJSON ?b"
    by (simp add: handler_defs scenario_defs)
  have r: "fst (ingest scenario_C empty_store) = Returns \<lparr>code = 201, body = IngestJSON ?b\<rparr>"
    by (simp add: handler_defs scenario_defs)
  have o: "ocr_status (ocr ?b) = ''success''"
    "ocr_text (ocr ?b) = ''WALMART'' @ [CHR 10] @ ''01/15/2024'' @ [CHR 10] @ ''$45.67''"
    "receipt_id ?b = 1"
    by (simp_all add: handler_defs scenario_defs)
  have c: "NewGeminiClient scenario_C = Inr ''gemini-1.5-flash''"
    by (simp add: NewGeminiClient_def scenario_C_def scenario_A_def)
  have a: "AnalyzeReceiptTextWithPrompt scenario_C ''gemini-1.5-flash'' (ocr_text (ocr ?b)) =
      Returns (?g, None)"
    by (simp add: AnalyzeReceiptTextWithPrompt_def GenerateText_def scenario_C_def scenario_A_def)
  have u: "json_Unmarshal scenario_C (cleanResponse (Text ?g)) = Inl ''invalid character''"
    by (simp add: handler_defs scenario_defs)
  have t: "ocr_text (ocr ?b) \<noteq> ''''"
    by (simp add: o)
  have es: "transactions empty_store = []"
    by (simp add: empty_store_def)
  from parse_failure_is_not_fatal[OF run b o(1) t c a _ u]
  have "gemini_status (gemini ?b) = ''success''"
    "gemini_error (gemini ?b) = ''Failed to parse JSON: invalid character''"
    "transactions (snd (ingest scenario_C empty_store)) = []"
    "receipt_state (snd (ingest scenario_C empty_store)) 1 = Some ''needs_review''"
    by (simp_all add: o es)
  with u r show ?thesis by auto
qed

text \<open>
  Claim C6: once the file is stored and the Receipt row exists, the handler answers 201
  whatever the OCR, the extraction capability, the decoding and the insert of the
  transaction do. \<^verbatim>\<open>GenerateText\<close> returns an error when the capability fails and when it
  answers no candidate, and the handler turns both into the status \<open>failed\<close>; but it reads
  the content of the first candidate and the usage metadata without checking them. When
  the capability answers a candidate without content, or an answer without usage metadata,
  the handler panics: the file is stored, the receipt is registered, and no response is
  sent.
\<close>

theorem registered_request_panics_on_nil_reply:
  "(case ingest
          (scenario_A\<lparr>GenerateContent :=
             (\<lambda>model prompt. Inr \<lparr>Candidates = [None], UsageMetadata = Some 12\<rparr>)\<rparr>)
          empty_store of
      (out, s') \<Rightarrow>
        out = Panics \<and>
        uploads s' =
          [(''uploads/123e4567-e89b-12d3-a456-426614174000_20240115_103000.jpg'',
            [255, 216, 255, 224])] \<and>
        map FileName (receipts s') =
          [''123e4567-e89b-12d3-a456-426614174000_20240115_103000.jpg''] \<and>
        map Status (receipts s') = [''needs_review''] \<and>
        transactions s' = []) \<and>
   (case ingest
          (scenario_A\<lparr>GenerateContent :=
             (\<lambda>model prompt.
                Inr \<lparr>Candidates = [Some [runes walmart_json]], UsageMetadata = None\<rparr>)\<rparr>)
          empty_store of
      (out, s') \<Rightarrow>
        out = Panics \<and>
        uploads s' =
          [(''uploads/123e4567-e89b-12d3-a456-426614174000_20240115_103000.jpg'',
            [255, 216, 255, 224])] \<and>
        map FileName (receipts s') =
          [''123e4567-e89b-12d3-a456-426614174000_20240115_103000.jpg''] \<and>
        map Status (receipts s') = [''needs_review''] \<and>
        transactions s' = [])"
  by (simp add: handler_defs scenario_defs)

text \<open>
  Claim C7: for every decoded extraction result whose transaction is persisted, the amount
  is stored as NULL if and only if the decoded amount is at most zero, the confidence is
  stored as NULL if and only if the decoded confidence is at most zero, and a positive
  value is stored as it is. The stored values are those handed to the \<^verbatim>\<open>INSERT\<close>.
\<close>

theorem nonpositive_numbers_stored_as_null:
  assumes "ingest e s = (Returns resp, s')" "body resp = IngestJSON b"
    "gemini_parsed (gemini b) = Some d" "InsertTransaction_err e = None"
  shows "\<exists>t. transactions s' = transactions s @ [t] \<and> tx_ReceiptID t = receipt_id b \<and>
    (tx_Amount t = None \<longleftrightarrow> Amount d \<le> 0) \<and>
    (0 < Amount d \<longrightarrow> tx_Amount t = Some (Amount d)) \<and>
    (tx_Confidence t = None \<longleftrightarrow> Confidence d \<le> 0) \<and>
    (0 < Confidence d \<longrightarrow> tx_Confidence t = Some (Confidence d))"
proof -
  from ingest_created[OF assms(1,2)] obtain "file" where
    reg: "FormFile e = Some file" "type_accepted (ContentType file)" "SaveFile_err e = None"
      "Stat_err e = None" "InsertReceipt_err e = None" "LastInsertId_err e = None"
    by blast
  let ?p = "save_path_of e file"
  let ?rid = "next_id (map ID (receipts s))"
  define s1 where "s1 = registered_store e file s"
  define r1 where "r1 = perform_ocr e (ContentType file) ?p s1"
  define r2 where "r2 = parse_with_gemini e ?rid (fst r1) (snd r1)"
  define t where "t = transaction_row e (snd r1) ?rid d"
  from assms(1,2) have b: "fst r2 = Returns (gemini b)" "receipt_id b = ?rid"
    and s': "s' = snd r2"
    by (auto simp add: ingest_registered[OF reg] Let_def s1_def r1_def r2_def
        split: outcome.splits)
  have r1: "snd r1 = s1\<lparr>trace := trace s1 @ ocr_calls e (ContentType file) ?p (Content file)\<rparr>"
    unfolding r1_def s1_def by (rule perform_ocr_store[OF registered_store_file])
  from gemini_parsed_stored[OF b(1)[unfolded r2_def] assms(3,4)]
  have "transactions s' = transactions (snd r1) @ [t]"
    by (simp add: s' r2_def t_def)
  then have tr: "transactions s' = transactions s @ [t]"
    by (simp add: r1 s1_def registered_store_def)
  have f: "tx_ReceiptID t = ?rid"
    "tx_Amount t = (if 0 < Amount d then Some (Amount d) else None)"
    "tx_Confidence t = (if 0 < Confidence d then Some (Confidence d) else None)"
    by (simp_all add: t_def transaction_row_def NullFloat64_def)
  show ?thesis
    using tr f b(2) by (intro exI[of _ t]) auto
qed

theorem nonpositive_numbers_stored_as_null_witness:
  "(\<exists>b. fst (ingest scenario_A empty_store) = Returns \<lparr>code = 201, body = IngestJSON b\<rparr> \<and>
      gemini_parsed (gemini b) = Some walmart_data) \<and>
   map tx_Amount (transactions (snd (ingest scenario_A empty_store))) = [Some (4567 / 100)] \<and>
   map tx_Confidence (transactions (snd (ingest scenario_A empty_store))) = [Some (9 / 10)] \<and>
   (\<exists>b. fst (ingest
        (scenario_A\<lparr>GenerateContent :=
           (\<lambda>model prompt. Inr \<lparr>Candidates = [Some [runes ''{}'']], UsageMetadata = Some 9\<rparr>)\<rparr>)
        empty_store) = Returns \<lparr>code = 201, body = IngestJSON b\<rparr> \<and>
      gemini_parsed (gemini b) = Some zero_data) \<and>
   map tx_Amount (transactions (snd (ingest
        (scenario_A\<lparr>GenerateContent :=
           (\<lambda>model prompt. Inr \<lparr>Candidates = [Some [runes ''{}'']], UsageMetadata = Some 9\<rparr>)\<rparr>)
        empty_store))) = [None] \<and>
   map tx_Confidence (transactions (snd (ingest
        (scenario_A\<lparr>GenerateContent :=
           (\<lambda>model prompt. Inr \<lparr>Candidates = [Some [runes ''{}'']], UsageMetadata = Some 9\<rparr>)\<rparr>)
        empty_store))) = [None]"
proof -
  let ?z = "scenario_A\<lparr>GenerateContent :=
      (\<lambda>model prompt. Inr \<lparr>Candidates = [Some [runes ''{}'']], UsageMetadata = Some 9\<rparr>)\<rparr>"
  let ?rA = "case fst (ingest scenario_A empty_store) of Returns r \<Rightarrow> r"
  let ?rZ = "case fst (ingest ?z empty_store) of Returns r \<Rightarrow> r"
  let ?bA = "case body ?rA of IngestJSON b \<Rightarrow> b"
  let ?bZ = "case body ?rZ of IngestJSON b \<Rightarrow> b"
  have runA: "ingest scenario_A empty_store = (Returns ?rA, snd (ingest scenario_A empty_store))"
    and runZ: "ingest ?z empty_store = (Returns ?rZ, snd (ingest ?z empty_store))"
    by (simp_all add: handler_defs scenario_defs)
  have bA: "body ?rA = IngestJSON ?bA"
    and pA: "gemini_parsed (gemini ?bA) = Some walmart_data"
    and rA: "fst (ingest scenario_A empty_store) = Returns \<lparr>code = 201, body = IngestJSON ?bA\<rparr>"
    by (simp_all add: handler_defs scenario_defs)
  have bZ: "body ?rZ = IngestJSON ?bZ"
    and pZ: "gemini_parsed (gemini ?bZ) = Some zero_data"
    and rZ: "fst (ingest ?z empty_store) = Returns \<lparr>code = 201, body = IngestJSON ?bZ\<rparr>"
    by (simp_all add: handler_defs scenario_defs)
  have i: "InsertTransaction_err scenario_A = None" "InsertTransaction_err ?z = None"
    by (simp_all add: scenario_A_def)
  have es: "transactions empty_store = []"
    by (simp add: empty_store_def)
  have d: "Amount walmart_data = 4567 / 100" "Confidence walmart_data = 9 / 10"
    "Amount zero_data = 0" "Confidence zero_data = 0"
    by (simp_all add: walmart_data_def zero_data_def)
  from nonpositive_numbers_stored_as_null[OF runA bA pA i(1)]
  obtain tA where "transactions (snd (ingest scenario_A empty_store)) = [tA]"
    "tx_Amount tA = Some (4567 / 100)" "tx_Confidence tA = Some (9 / 10)"
    by (auto simp add: es d)
  moreover from nonpositive_numbers_stored_as_null[OF runZ bZ pZ i(2)]
  obtain tZ where "transactions (snd (ingest ?z empty_store)) = [tZ]"
    "tx_Amount tZ = None" "tx_Confidence tZ = None"
    by (auto simp add: es d)
  ultimately show ?thesis using pA pZ rA rZ by auto
qed

text \<open>
  Claim C8: for every answer \<open>s\<close> of the extraction capability, \<open>s\<close> wrapped in a leading
  fence (tagged \<open>json\<close> or bare) and a trailing fence is cleaned and decoded exactly as \<open>s\<close>
  itself. The handler strips one fence at each end, so an answer that carries a fence of its
  own is a counterexample. An answer that ends with a fence: unwrapped it is cleaned to the
  empty object, wrapped to the object followed by three backticks. An answer that begins
  with a tagged fence: unwrapped it is cleaned to the empty object, wrapped to the object
  preceded by the tag. And under a bare fence, an answer that begins with the letters
  \<open>json\<close>: wrapped it is cleaned to the empty object, unwrapped it is left as it is.
\<close>

theorem half_fenced_answer_decodes_differently:
  "cleanResponse (fence_json @ runes ''{}```'' @ fence) = runes ''{}```'' \<and>
   cleanResponse (runes ''{}```'') = runes ''{}'' \<and>
   json_Unmarshal scenario_A (cleanResponse (fence_json @ runes ''{}```'' @ fence)) =
     Inl ''invalid character'' \<and>
   json_Unmarshal scenario_A (cleanResponse (runes ''{}```'')) = Inr zero_data \<and>
   cleanResponse (fence_json @ runes ''```json{}'' @ fence) = runes ''json{}'' \<and>
   cleanResponse (runes ''```json{}'') = runes ''{}'' \<and>
   json_Unmarshal scenario_A (cleanResponse (fence_json @ runes ''```json{}'' @ fence)) =
     Inl ''invalid character'' \<and>
   json_Unmarshal scenario_A (cleanResponse (runes ''```json{}'')) = Inr zero_data \<and>
   cleanResponse (fence @ runes ''json{}'' @ fence) = runes ''{}'' \<and>
   cleanResponse (runes ''json{}'') = runes ''json{}'' \<and>
   json_Unmarshal scenario_A (cleanResponse (fence @ runes ''json{}'' @ fence)) =
     Inr zero_data \<and>
   json_Unmarshal scenario_A (cleanResponse (runes ''json{}'')) = Inl ''invalid character''"
  by (simp add: handler_defs scenario_defs)

text \<open>
  Claim C8, amended: for every answer \<open>s\<close> that is not fenced itself (trimmed of white
  space it neither begins nor ends with three backticks), \<open>s\<close> wrapped in a leading fence
  tagged \<open>json\<close> and a trailing fence is cleaned to the same text as \<open>s\<close>, and therefore
  decoded to the same outcome and fields; so is \<open>s\<close> wrapped in a bare leading fence and a
  trailing fence, provided \<open>s\<close> does not begin with the letters \<open>json\<close>. White space and
  line breaks between the fences and the answer are part of \<open>s\<close>.
\<close>

theorem fences_are_transparent:
  assumes "\<not> HasPrefix (TrimSpace s) fence" "\<not> HasSuffix (TrimSpace s) fence"
  shows "cleanResponse (fence_json @ s @ fence) = cleanResponse s \<and>
    json_Unmarshal e (cleanResponse (fence_json @ s @ fence)) =
      json_Unmarshal e (cleanResponse s) \<and>
    (\<not> HasPrefix s (runes ''json'') \<longrightarrow>
       cleanResponse (fence @ s @ fence) = cleanResponse s \<and>
       json_Unmarshal e (cleanResponse (fence @ s @ fence)) =
         json_Unmarshal e (cleanResponse s))"
  using assms
  by (simp add: clean_unfenced clean_wrapped_json clean_wrapped_bare)

theorem fences_are_transparent_witness:
  "\<not> HasPrefix (TrimSpace ([10] @ runes walmart_json @ [10])) fence \<and>
   \<not> HasSuffix (TrimSpace ([10] @ runes walmart_json @ [10])) fence \<and>
   json_Unmarshal scenario_A (cleanResponse ([10] @ runes walmart_json @ [10])) =
     Inr walmart_data \<and>
   json_Unmarshal scenario_A
     (cleanResponse (fence_json @ ([10] @ runes walmart_json @ [10]) @ fence)) =
     Inr walmart_data \<and>
   json_Unmarshal scenario_A
     (cleanResponse (fence @ ([10] @ runes walmart_json @ [10]) @ fence)) =
     Inr walmart_data"
proof -
  let ?s = "[10] @ runes walmart_json @ [10]"
  have h: "\<not> HasPrefix (TrimSpace ?s) fence" "\<not> HasSuffix (TrimSpace ?s) fence"
    "\<not> HasPrefix ?s (runes ''json'')"
    by (simp_all add: handler_defs scenario_defs)
  have u: "json_Unmarshal scenario_A (cleanResponse ?s) = Inr walmart_data"
    by (simp add: handler_defs scenario_defs)
  from fences_are_transparent[OF h(1,2), of scenario_A] h u show ?thesis
    by simp
qed

text \<open>
  Claim C9: for every accepted request, a Receipt row in state \<open>needs_review\<close> is inserted
  right after the file is stored and before any OCR or extraction; if the insert fails the
  request aborts and the stored file persists. Between the save and the insert the handler
  reads the file information and answers 500 when that fails: the file is stored and no
  Receipt row is inserted, nor is the insert attempted.
\<close>

theorem stored_file_without_receipt:
  "(case ingest (scenario_A\<lparr>Stat_err := Some ''stat: no such file or directory''\<rparr>) empty_store of
      (out, s') \<Rightarrow>
        out = Returns \<lparr>code = 500, body = ErrorJSON ''Failed to get file info''\<rparr> \<and>
        uploads s' =
          [(''uploads/123e4567-e89b-12d3-a456-426614174000_20240115_103000.jpg'',
            [255, 216, 255, 224])] \<and>
        receipts s' = [] \<and>
        trace s' =
          [EvSaveFile ''uploads/123e4567-e89b-12d3-a456-426614174000_20240115_103000.jpg'',
           EvStat ''uploads/123e4567-e89b-12d3-a456-426614174000_20240115_103000.jpg''])"
  by (simp add: handler_defs scenario_defs)

text \<open>
  Claim C9, amended: for every accepted request whose file is stored and whose file
  information is then read, the next call is the insert of a Receipt row in state
  \<open>needs_review\<close>, before any OCR or extraction call. If the insert succeeds, the table of
  receipts has one more row, with the next id and the stored file name. If the insert fails,
  the request is answered 500 with an error, no further call is made, and the tables are as
  before. In both cases the stored file is there at the end.
\<close>

theorem receipt_registered_before_stages:
  assumes "FormFile e = Some file" "type_accepted (ContentType file)"
    "SaveFile_err e = None" "Stat_err e = None"
  shows "\<exists>rest.
    new_events s (snd (ingest e s)) =
      EvSaveFile (save_path_of e file) # EvStat (save_path_of e file) #
      EvInsertReceipt (stored_name_of e file) ''needs_review'' # rest \<and>
    (InsertReceipt_err e = None \<longrightarrow>
       map ID (receipts (snd (ingest e s))) =
         map ID (receipts s) @ [next_id (map ID (receipts s))] \<and>
       map FileName (receipts (snd (ingest e s))) =
         map FileName (receipts s) @ [stored_name_of e file]) \<and>
    (InsertReceipt_err e \<noteq> None \<longrightarrow>
       rest = [] \<and>
       fst (ingest e s) =
         Returns \<lparr>code = 500, body = ErrorJSON ''Failed to save receipt to database''\<rparr> \<and>
       receipts (snd (ingest e s)) = receipts s \<and>
       transactions (snd (ingest e s)) = transactions s) \<and>
    map_of (uploads (snd (ingest e s))) (save_path_of e file) = Some (Content file)"
proof (cases "InsertReceipt_err e")
  case (Some err)
  from ingest_insert_failed[OF assms Some] Some show ?thesis
    by (simp add: new_events_def error_response_def)
next
  case None
  note ins = this
  have rows: "map ID (receipts (registered_store e file s)) =
      map ID (receipts s) @ [next_id (map ID (receipts s))]"
    "map FileName (receipts (registered_store e file s)) =
      map FileName (receipts s) @ [stored_name_of e file]"
    by (simp_all add: registered_store_def new_receipt_def)
  show ?thesis
  proof (cases "LastInsertId_err e")
    case (Some err)
    from ingest_lastid_failed[OF assms ins Some] ins rows show ?thesis
      by (simp add: new_events_def registered_store_def)
  next
    case None
    from ingest_registered_store[OF assms ins None, of s] obtain evs where
      tr: "trace (snd (ingest e s)) =
        trace (registered_store e file s) @
        ocr_calls e (ContentType file) (save_path_of e file) (Content file) @ evs"
      and up: "uploads (snd (ingest e s)) = uploads (registered_store e file s)"
      and rc: "receipts (snd (ingest e s)) = receipts (registered_store e file s) \<or>
        receipts (snd (ingest e s)) =
          update_status (next_id (map ID (receipts s))) ''processed''
            (receipts (registered_store e file s))"
      by blast
    from rc rows have r: "map ID (receipts (snd (ingest e s))) =
        map ID (receipts s) @ [next_id (map ID (receipts s))]"
      "map FileName (receipts (snd (ingest e s))) =
        map FileName (receipts s) @ [stored_name_of e file]"
      by (auto simp add: update_status_keeps)
    have "new_events s (snd (ingest e s)) =
      EvSaveFile (save_path_of e file) # EvStat (save_path_of e file) #
      EvInsertReceipt (stored_name_of e file) ''needs_review'' #
      (EvLastInsertId # ocr_calls e (ContentType file) (save_path_of e file) (Content file) @ evs)"
      by (simp add: new_events_def tr registered_store_def)
    with r ins up show ?thesis
      by (simp add: registered_store_file)
  qed
qed

theorem receipt_registered_before_stages_witness:
  "FormFile scenario_A = Some jpeg_upload \<and> type_accepted (ContentType jpeg_upload) \<and>
   SaveFile_err scenario_A = None \<and> Stat_err scenario_A = None \<and>
   take 3 (new_events empty_store (snd (ingest scenario_A empty_store))) =
     [EvSaveFile ''uploads/123e4567-e89b-12d3-a456-426614174000_20240115_103000.jpg'',
      EvStat ''uploads/123e4567-e89b-12d3-a456-426614174000_20240115_103000.jpg'',
      EvInsertReceipt ''123e4567-e89b-12d3-a456-426614174000_20240115_103000.jpg''
        ''needs_review''] \<and>
   map ID (receipts (snd (ingest scenario_A empty_store))) = [1] \<and>
   new_events empty_store
     (snd (ingest (scenario_A\<lparr>InsertReceipt_err := Some ''Error 1040: Too many connections''\<rparr>)
        empty_store)) =
     [EvSaveFile ''uploads/123e4567-e89b-12d3-a456-426614174000_20240115_103000.jpg'',
      EvStat ''uploads/123e4567-e89b-12d3-a456-426614174000_20240115_103000.jpg'',
      EvInsertReceipt ''123e4567-e89b-12d3-a456-426614174000_20240115_103000.jpg''
        ''needs_review''] \<and>
   fst (ingest (scenario_A\<lparr>InsertReceipt_err := Some ''Error 1040: Too many connections''\<rparr>)
     empty_store) =
     Returns \<lparr>code = 500, body = ErrorJSON ''Failed to save receipt to database''\<rparr>"
proof -
  let ?e = "scenario_A\<lparr>InsertReceipt_err := Some ''Error 1040: Too many connections''\<rparr>"
  have f: "FormFile scenario_A = Some jpeg_upload" "FormFile ?e = Some jpeg_upload"
    by (simp_all add: scenario_A_def)
  have a: "type_accepted (ContentType jpeg_upload)"
    by (simp add: type_accepted_def allowedTypes_def jpeg_upload_def)
  have n: "SaveFile_err scenario_A = None" "Stat_err scenario_A = None"
    "InsertReceipt_err scenario_A = None"
    "SaveFile_err ?e = None" "Stat_err ?e = None" "InsertReceipt_err ?e \<noteq> None"
    by (simp_all add: scenario_A_def)
  have p: "save_path_of scenario_A jpeg_upload =
      ''uploads/123e4567-e89b-12d3-a456-426614174000_20240115_103000.jpg''"
    "stored_name_of scenario_A jpeg_upload =
      ''123e4567-e89b-12d3-a456-426614174000_20240115_103000.jpg''"
    "save_path_of ?e jpeg_upload =
      ''uploads/123e4567-e89b-12d3-a456-426614174000_20240115_103000.jpg''"
    "stored_name_of ?e jpeg_upload =
      ''123e4567-e89b-12d3-a456-426614174000_20240115_103000.jpg''"
    by (simp_all add: save_path_of_def stored_name_of_def Ext_def scenario_A_def jpeg_upload_def)
  have es: "map ID (receipts empty_store) = []" "next_id [] = 1"
    by (simp_all add: empty_store_def next_id_def)
  from receipt_registered_before_stages[OF f(1) a n(1,2), of empty_store]
    receipt_registered_before_stages[OF f(2) a n(4,5), of empty_store]
  show ?thesis using f a n by (auto simp add: p es)
qed

end
